theory Spec2Isabelle
  imports Main "HOL-Library.AList" "HOL-Library.Sublist"
begin

section \<open>Values, strings and the browser environment\<close>

text \<open>
  The model follows \<^verbatim>\<open>src/pages/GenerateReport.tsx\<close>. A JavaScript \<^verbatim>\<open>throw\<close> is a result
  \<open>Inl\<close>: \<open>Err m\<close> is an instance of \<^verbatim>\<open>Error\<close> with message \<open>m\<close>, \<open>Thrown s\<close> is any other
  thrown value \<open>v\<close>, with \<open>s = String(v)\<close> (an \<^verbatim>\<open>Event\<close>, \<^verbatim>\<open>null\<close>, ...).

  A string of the model is the JavaScript string in UTF-8, one \<open>char\<close> for each byte (a
  surrogate that stands alone is written in three bytes like any other code unit of that
  range). The literals of the source, concatenation where one side is a literal, equality
  and the search for a literal are then what they are on the code units; \<^verbatim>\<open>trim\<close> and
  \<^verbatim>\<open>substring\<close>, which depend on the characters, are defined on the byte sequences below.
\<close>

datatype thrown = Err string | Thrown string

text \<open>\<^verbatim>\<open>error instanceof Error ? error : new Error(String(error))\<close>\<close>

fun toError :: "thrown \<Rightarrow> thrown" where
  "toError (Err m) = Err m"
| "toError (Thrown s) = Err s"

fun message :: "thrown \<Rightarrow> string" where
  "message (Err m) = m"
| "message (Thrown s) = s"

fun instanceofError :: "thrown \<Rightarrow> bool" where
  "instanceofError (Err m) = True"
| "instanceofError (Thrown s) = False"

text \<open>\<^verbatim>\<open>s.includes(sub)\<close>: \<open>sub\<close> occurs in \<open>s\<close> as a contiguous block.\<close>

fun str_includes :: "string \<Rightarrow> string \<Rightarrow> bool" where
  "str_includes [] sub = (sub = [])"
| "str_includes (c # cs) sub = (prefix sub (c # cs) \<or> str_includes cs sub)"

text \<open>The decimal digits of a number, as a template literal prints it.\<close>

function show_nat :: "nat \<Rightarrow> string" where
  "show_nat n =
     (if n < 10 then [''0123456789'' ! n]
      else show_nat (n div 10) @ [''0123456789'' ! (n mod 10)])"
  by pat_completeness auto
termination
  by (relation "measure id") auto

declare show_nat.simps [simp del]

text \<open>A string is truthy when it is neither \<^verbatim>\<open>null\<close>/\<^verbatim>\<open>undefined\<close> nor empty.\<close>

fun truthy :: "string option \<Rightarrow> bool" where
  "truthy None = False"
| "truthy (Some s) = (s \<noteq> [])"

datatype json =
  JNull | JBool bool | JNum int | JStr string | JArr "json list" | JObj "(string \<times> json) list"

text \<open>
  The outcome of \<^verbatim>\<open>await fetch(...)\<close> followed by the reads of the response body:
  \<open>Rejects e\<close> when the fetch rejects, \<^verbatim>\<open>response.json()\<close> rejects or a property read on the
  decoded body throws; otherwise the status and the fields the code reads from the body.
\<close>

datatype 'b fetched = Rejects thrown | Responds nat 'b

definition response_ok :: "nat \<Rightarrow> bool" where
  "response_ok status = (200 \<le> status \<and> status \<le> 299)"

text \<open>
  Of a \<^verbatim>\<open>generateContent\<close> body the code reads \<^verbatim>\<open>error?.message\<close> and
  \<^verbatim>\<open>candidates[0].content.parts[0].text\<close> (\<open>None\<close> when \<^verbatim>\<open>candidates\<close>, its first element
  or its \<^verbatim>\<open>content\<close> is missing).
\<close>

record gen_body =
  error_message :: "string option"
  candidate_text :: "string option"

text \<open>
  Of the image endpoint's body the code reads \<^verbatim>\<open>generatedImages[0]\<close> (\<open>NoGeneratedImage\<close> when
  \<^verbatim>\<open>generatedImages\<close> or its first element is missing) and, of that element,
  \<^verbatim>\<open>bytesBase64Encoded\<close> (\<open>None\<close> when it is \<^verbatim>\<open>undefined\<close>).
\<close>

datatype generated = NoGeneratedImage | GeneratedImage "string option"

record CacheEntry =
  data :: string
  timestamp :: int
  imageHash :: string

text \<open>
  The \<^verbatim>\<open>Map<string, CacheEntry>\<close> keeps its keys in insertion order: an association list,
  where \<^verbatim>\<open>Map.set\<close> is \<^const>\<open>AList.update\<close> (in place for a key that is present, at the end
  otherwise) and \<^verbatim>\<open>Map.delete\<close> is \<^const>\<open>AList.delete\<close>.
\<close>

type_synonym cache_map = "(string \<times> CacheEntry) list"

text \<open>
  The item \<^verbatim>\<open>geminiApiCache\<close> of \<^verbatim>\<open>localStorage\<close>: missing, text that \<^verbatim>\<open>JSON.parse\<close> or
  \<^verbatim>\<open>Object.entries\<close> rejects, or the serialised entries. Every cache key contains \<^verbatim>\<open>-\<close>, so
  the object written by \<^verbatim>\<open>Object.fromEntries\<close> gives its entries back in the same order.
\<close>

datatype stored = Absent | Corrupt | Saved cache_map

record ReportData =
  repaired_image_url :: string
  repair_description :: "string option"
  cost_estimation :: "json option"
  timeline :: "json option"

text \<open>
  What the page cannot decide: the configured key, the clock (its reading at each suspension
  point of the session), the digest and the transcoding of an image, whether
  \<^verbatim>\<open>localStorage.setItem\<close> accepts a cache, the replies of the three remote calls (the analysis
  endpoint by request number, each by the prompt sent and the analysis endpoint also by the
  image data) and the platform's \<^verbatim>\<open>JSON.parse\<close> (on text that starts with a brace: the
  members of the object, or \<open>None\<close> when it throws) and \<^verbatim>\<open>JSON.stringify\<close>.
\<close>

record env =
  apiKey :: "string option"
  clock :: "nat \<Rightarrow> int"
  generateImageHash :: "string \<Rightarrow> thrown + string"
  convertImageToBase64 :: "string \<Rightarrow> thrown + string"
  storageAccepts :: "cache_map \<Rightarrow> bool"
  analysisEndpoint :: "nat \<Rightarrow> string \<Rightarrow> string \<Rightarrow> gen_body fetched"
  descriptionEndpoint :: "string \<Rightarrow> gen_body fetched"
  imageEndpoint :: "string \<Rightarrow> generated fetched"
  JSON_parse :: "string \<Rightarrow> (string \<times> json) list option"
  JSON_stringify :: "json option \<Rightarrow> string option"

section \<open>State\<close>

record CacheManager =
  cache :: cache_map
  requestTimestamps :: "int list"

text \<open>The \<^verbatim>\<open>useState\<close> cells of \<^verbatim>\<open>GenerateReport\<close>.\<close>

record ui_state =
  uploadedImage :: "string option"
  userDescription :: string
  isLoading :: bool
  reportData :: "ReportData option"
  error :: "string option"
  processingStep :: string
  retryCount :: nat
  retryDelay :: int
  cacheStatus :: "string option"
  rateLimitStatus :: "string option"

text \<open>
  The page: the React state, the module-level \<^verbatim>\<open>cacheManager\<close>, the browser's
  \<^verbatim>\<open>localStorage\<close> item, the number of suspension points passed (the index of the clock) and
  the number of requests sent to the analysis endpoint.
\<close>

record world =
  ui :: ui_state
  cacheManager :: CacheManager
  localStorage :: stored
  time :: nat
  requests :: nat

definition now :: "env \<Rightarrow> world \<Rightarrow> int" where
  "now env w = clock env (time w)"

definition tick :: "world \<Rightarrow> world" where
  "tick w = w\<lparr>time := Suc (time w)\<rparr>"

section \<open>Configuration\<close>

definition maxRequestsPerMinute :: nat where
  "maxRequestsPerMinute = 10"

definition cooldownPeriod :: int where
  "cooldownPeriod = 60000"

definition maxAge :: int where
  "maxAge = 24 * 60 * 60 * 1000"

definition maxEntries :: nat where
  "maxEntries = 50"

section \<open>CacheManager\<close>

text \<open>
  The methods take the reading of \<^verbatim>\<open>Date.now()\<close> as the argument \<open>t\<close>. The constructor
  starts from an empty map and loads the stored item.
\<close>

definition loadFromLocalStorage :: "stored \<Rightarrow> cache_map" where
  "loadFromLocalStorage s = (case s of Saved c \<Rightarrow> c | Absent \<Rightarrow> [] | Corrupt \<Rightarrow> [])"

definition new_CacheManager :: "stored \<Rightarrow> CacheManager" where
  "new_CacheManager s = \<lparr>cache = loadFromLocalStorage s, requestTimestamps = []\<rparr>"

definition saveToLocalStorage :: "env \<Rightarrow> world \<Rightarrow> world" where
  "saveToLocalStorage env w =
     (if storageAccepts env (cache (cacheManager w))
      then w\<lparr>localStorage := Saved (cache (cacheManager w))\<rparr>
      else w)"

definition cacheKey :: "string \<Rightarrow> string \<Rightarrow> string" where
  "cacheKey h prompt = h @ ''-'' @ prompt"

definition set_cache_map :: "cache_map \<Rightarrow> world \<Rightarrow> world" where
  "set_cache_map c w = w\<lparr>cacheManager := (cacheManager w)\<lparr>cache := c\<rparr>\<rparr>"

definition get ::
  "env \<Rightarrow> int \<Rightarrow> string \<Rightarrow> string \<Rightarrow> world \<Rightarrow> (thrown + string option) \<times> world" where
  "get env t imageUrl prompt w =
     (case generateImageHash env imageUrl of
        Inl e \<Rightarrow> (Inl e, w)
      | Inr h \<Rightarrow>
          (case map_of (cache (cacheManager w)) (cacheKey h prompt) of
             None \<Rightarrow> (Inr None, w)
           | Some entry \<Rightarrow>
               (let age = t - timestamp entry in
                if age < maxAge then (Inr (Some (data entry)), w)
                else (Inr None,
                      set_cache_map (AList.delete (cacheKey h prompt) (cache (cacheManager w))) w))))"

text \<open>
  The oldest entry is the first one of the entries sorted by timestamp; the sort is stable.
  Reading \<^verbatim>\<open>[0][0]\<close> of an empty array throws a \<^verbatim>\<open>TypeError\<close>.
\<close>

definition set_cache ::
  "env \<Rightarrow> int \<Rightarrow> string \<Rightarrow> string \<Rightarrow> string \<Rightarrow> world \<Rightarrow> (thrown + unit) \<times> world" where
  "set_cache env t imageUrl prompt d w =
     (case generateImageHash env imageUrl of
        Inl e \<Rightarrow> (Inl e, w)
      | Inr h \<Rightarrow>
          (let c = cache (cacheManager w);
               entry = \<lparr>data = d, timestamp = t, imageHash = h\<rparr>
           in if maxEntries \<le> length c
              then (case sort_key (\<lambda>p. timestamp (snd p)) c of
                      [] \<Rightarrow> (Inl (Err ''Cannot read properties of undefined''), w)
                    | oldest # rest \<Rightarrow>
                        (Inr (),
                         saveToLocalStorage env
                           (set_cache_map
                              (AList.update (cacheKey h prompt) entry (AList.delete (fst oldest) c)) w)))
              else (Inr (),
                    saveToLocalStorage env
                      (set_cache_map (AList.update (cacheKey h prompt) entry c) w))))"

definition set_requestTimestamps :: "int list \<Rightarrow> world \<Rightarrow> world" where
  "set_requestTimestamps ts w = w\<lparr>cacheManager := (cacheManager w)\<lparr>requestTimestamps := ts\<rparr>\<rparr>"

definition canMakeRequest :: "int \<Rightarrow> world \<Rightarrow> bool \<times> world" where
  "canMakeRequest t w =
     (let ts = filter (\<lambda>timestamp. t - timestamp < cooldownPeriod)
                 (requestTimestamps (cacheManager w))
      in (length ts < maxRequestsPerMinute, set_requestTimestamps ts w))"

definition recordRequest :: "int \<Rightarrow> world \<Rightarrow> world" where
  "recordRequest t w =
     set_requestTimestamps (requestTimestamps (cacheManager w) @ [t]) w"

text \<open>
  When \<^const>\<open>canMakeRequest\<close> refuses, at least \<^const>\<open>maxRequestsPerMinute\<close> timestamps are
  left, so \<^verbatim>\<open>requestTimestamps[0]\<close> is defined; of an empty array it is \<^verbatim>\<open>undefined\<close> and the
  result \<^verbatim>\<open>NaN\<close>, which is \<open>None\<close> here.
\<close>

definition getNextAvailableTime :: "int \<Rightarrow> world \<Rightarrow> int option \<times> world" where
  "getNextAvailableTime t w =
     (case canMakeRequest t w of
        (True, w') \<Rightarrow> (Some 0, w')
      | (False, w') \<Rightarrow>
          (case requestTimestamps (cacheManager w') of
             [] \<Rightarrow> (None, w')
           | oldestTimestamp # rest \<Rightarrow> (Some (max 0 (oldestTimestamp + cooldownPeriod - t)), w')))"

text \<open>A sequence of \<^verbatim>\<open>recordRequest()\<close> calls, the clock reading \<open>ts ! i\<close> at the \<open>i\<close>-th.\<close>

fun recordRequests :: "int list \<Rightarrow> world \<Rightarrow> world" where
  "recordRequests [] w = w"
| "recordRequests (t # ts) w = recordRequests ts (recordRequest t w)"

section \<open>Strings by their characters\<close>

text \<open>
  \<^verbatim>\<open>String.prototype.trim\<close> removes white space and line terminators from both ends: the
  characters U+0009 to U+000D, U+0020, U+00A0, U+1680, U+2000 to U+200A, U+2028, U+2029,
  U+202F, U+205F, U+3000 and U+FEFF, here by their bytes.
\<close>

definition whiteSpace :: "string list" where
  "whiteSpace =
     [[CHR 0x09], [CHR 0x0A], [CHR 0x0B], [CHR 0x0C], [CHR 0x0D], [CHR 0x20],
      [CHR 0xC2, CHR 0xA0], [CHR 0xE1, CHR 0x9A, CHR 0x80],
      [CHR 0xE2, CHR 0x80, CHR 0x80], [CHR 0xE2, CHR 0x80, CHR 0x81],
      [CHR 0xE2, CHR 0x80, CHR 0x82], [CHR 0xE2, CHR 0x80, CHR 0x83],
      [CHR 0xE2, CHR 0x80, CHR 0x84], [CHR 0xE2, CHR 0x80, CHR 0x85],
      [CHR 0xE2, CHR 0x80, CHR 0x86], [CHR 0xE2, CHR 0x80, CHR 0x87],
      [CHR 0xE2, CHR 0x80, CHR 0x88], [CHR 0xE2, CHR 0x80, CHR 0x89],
      [CHR 0xE2, CHR 0x80, CHR 0x8A], [CHR 0xE2, CHR 0x80, CHR 0xA8],
      [CHR 0xE2, CHR 0x80, CHR 0xA9], [CHR 0xE2, CHR 0x80, CHR 0xAF],
      [CHR 0xE2, CHR 0x81, CHR 0x9F], [CHR 0xE3, CHR 0x80, CHR 0x80],
      [CHR 0xEF, CHR 0xBB, CHR 0xBF]]"

text \<open>Removes from the start of \<open>s\<close> every one of the sequences \<open>seqs\<close>, as long as one is there.\<close>

function strip_leading :: "string list \<Rightarrow> string \<Rightarrow> string" where
  "strip_leading seqs s =
     (case find (\<lambda>ws. ws \<noteq> [] \<and> prefix ws s) seqs of
        None \<Rightarrow> s
      | Some ws \<Rightarrow> strip_leading seqs (drop (length ws) s))"
  by pat_completeness auto
termination
proof (relation "measure (\<lambda>(seqs, s). length s)")
  show "wf (measure (\<lambda>(seqs, s). length s))" by simp
next
  fix seqs :: "string list" and s ws :: string
  assume "find (\<lambda>ws. ws \<noteq> [] \<and> prefix ws s) seqs = Some ws"
  then have "ws \<noteq> []" and "prefix ws s" by (auto simp: find_Some_iff)
  then have "0 < length ws" and "length ws \<le> length s" by (auto simp: prefix_length_le)
  then have "length s - length ws < length s" by linarith
  then show "((seqs, drop (length ws) s), (seqs, s)) \<in> measure (\<lambda>(seqs, s). length s)"
    by simp
qed

declare strip_leading.simps [simp del]

definition trim :: "string \<Rightarrow> string" where
  "trim s = rev (strip_leading (map rev whiteSpace) (rev (strip_leading whiteSpace s)))"

text \<open>
  \<^verbatim>\<open>s.substring(0, n)\<close> is the first \<open>n\<close> code units of \<open>s\<close>. A character of one, two or three
  bytes is one code unit; a character of four bytes is two, a surrogate pair, and when only
  its first half is taken, that half is what remains of it.
\<close>

definition sequence_length :: "char \<Rightarrow> nat" where
  "sequence_length c =
     (if (of_char c :: nat) < 0xC0 then 1
      else if (of_char c :: nat) < 0xE0 then 2
      else if (of_char c :: nat) < 0xF0 then 3
      else 4)"

fun high_surrogate :: "string \<Rightarrow> string" where
  "high_surrogate (b0 # b1 # b2 # b3 # rest) =
     (let cp = (of_char b0 mod 8) * 262144 + (of_char b1 mod 64) * 4096 +
               (of_char b2 mod 64) * 64 + of_char b3 mod 64;
          hi = 0xD800 + (cp - 0x10000) div 1024 :: nat
      in [CHR 0xED, char_of (0x80 + hi div 64 mod 64), char_of (0x80 + hi mod 64)])"
| "high_surrogate s = s"

function substring0 :: "nat \<Rightarrow> string \<Rightarrow> string" where
  "substring0 n s =
     (if n = 0 \<or> s = [] then []
      else if sequence_length (hd s) = 4 then
        (if n = 1 then high_surrogate s
         else take 4 s @ substring0 (n - 2) (drop 4 s))
      else take (sequence_length (hd s)) s @
           substring0 (n - 1) (drop (sequence_length (hd s)) s))"
  by pat_completeness auto
termination
  by (relation "measure (\<lambda>(n, s). length s)") (auto simp: sequence_length_def)

declare substring0.simps [simp del]

section \<open>The fixed texts\<close>

definition SYSTEM_PROMPT :: string where
  \<open>SYSTEM_PROMPT =
     ''You are a civil engineer and architect AI specializing in infrastructure completion and '' @
     ''restoration. Your task is to analyze the provided image and description of incomplete or '' @
     ''damaged infrastructure. Focus on:\<newline>'' @
     ''\<newline>'' @
     ''1. Identifying missing or incomplete structural elements\<newline>'' @
     ''2. Analyzing the current state of the infrastructure\<newline>'' @
     ''3. Providing detailed recommendations for completion and restoration\<newline>'' @
     ''4. Ensuring compliance with Indian safety codes and structural standards\<newline>'' @
     ''\<newline>'' @
     ''For the analysis, consider:\<newline>'' @
     ''- Structural integrity and safety requirements\<newline>'' @
     ''- Modern construction materials and techniques\<newline>'' @
     ''- Cost-effective solutions\<newline>'' @
     ''- Required permits and approvals\<newline>'' @
     ''- Timeline for completion\<newline>'' @
     ''\<newline>'' @
     ''Provide your analysis in a structured format with clear sections for:\<newline>'' @
     ''- Current State Assessment\<newline>'' @
     ''- Required Completion Work\<newline>'' @
     ''- Safety and Compliance Requirements\<newline>'' @
     ''- Cost Estimation\<newline>'' @
     ''- Timeline and Phases\<newline>'' @
     ''- Required Permits and Approvals''\<close>

definition fullPrompt :: "string \<Rightarrow> string" where
  \<open>fullPrompt description =
     SYSTEM_PROMPT @
     ''\<newline>'' @
     ''\<newline>'' @
     ''User's Infrastructure Description: '' @
     description @
     ''\<newline>'' @
     ''\<newline>'' @
     ''Please analyze the image and description to provide a comprehensive infrastructure completion '' @
     ''plan. Include specific details about:\<newline>'' @
     ''1. What elements are missing or incomplete\<newline>'' @
     ''2. What needs to be added or repaired\<newline>'' @
     ''3. How to ensure structural integrity\<newline>'' @
     ''4. Cost estimates for completion\<newline>'' @
     ''5. Required safety measures and compliance\<newline>'' @
     ''\<newline>'' @
     ''Please provide your response in the following JSON format:\<newline>'' @
     ''{\<newline>'' @
     ''  "repair_description": {\<newline>'' @
     ''    "current_state": "Analysis of current infrastructure state",\<newline>'' @
     ''    "completion_requirements": "Detailed list of what needs to be completed",\<newline>'' @
     ''    "safety_measures": "Required safety features and compliance measures",\<newline>'' @
     ''    "recommendations": "Step-by-step recommendations for completion"\<newline>'' @
     ''  },\<newline>'' @
     ''  "cost_estimation": {\<newline>'' @
     ''    "total": "'' @
     [CHR 0xE2, CHR 0x82, CHR 0xB9] @
     ''X,XX,XXX INR",\<newline>'' @
     ''    "breakdown": {\<newline>'' @
     ''      "materials": "'' @
     [CHR 0xE2, CHR 0x82, CHR 0xB9] @
     ''XX,XXX INR",\<newline>'' @
     ''      "labor": "'' @
     [CHR 0xE2, CHR 0x82, CHR 0xB9] @
     ''XX,XXX INR",\<newline>'' @
     ''      "permits": "'' @
     [CHR 0xE2, CHR 0x82, CHR 0xB9] @
     ''XX,XXX INR",\<newline>'' @
     ''      "safety_equipment": "'' @
     [CHR 0xE2, CHR 0x82, CHR 0xB9] @
     ''XX,XXX INR"\<newline>'' @
     ''    }\<newline>'' @
     ''  },\<newline>'' @
     ''  "timeline": {\<newline>'' @
     ''    "estimated_duration": "X weeks/months",\<newline>'' @
     ''    "phases": ["Phase 1: ...", "Phase 2: ..."]\<newline>'' @
     ''  }\<newline>'' @
     ''}''\<close>

definition imagePrompt :: "string \<Rightarrow> string" where
  \<open>imagePrompt analysisText =
     ''Based on this structural analysis: "'' @
     substring0 500 analysisText @
     ''...", create a detailed description for generating an image of a fully restored Indian commercia'' @
     ''l building/viaduct structure. The description should include: modern materials, proper safety '' @
     ''features, compliance with Indian building codes, professional finish, contemporary Indian '' @
     ''infrastructure design elements, proper concrete finishing, modern safety railings, and urban '' @
     ''Indian setting. Make it suitable for AI image generation.''\<close>

definition imagenPrompt :: "string \<Rightarrow> string" where
  \<open>imagenPrompt enhancedDescription =
     ''Photorealistic image of a fully restored Indian commercial building/viaduct structure. '' @
     enhancedDescription @
     '' High quality architectural photography, professional lighting, modern construction materials, '' @
     ''safety compliance with Indian building codes.''\<close>

definition placeholderImage :: string where
  \<open>placeholderImage =
     ''data:image/svg+xml;base64,PHN2ZyB3aWR0aD0iNTEyIiBoZWlnaHQ9IjUxMiIgeG1sbnM9Imh0dHA6Ly93d3cudzMub3'' @
     ''JnLzIwMDAvc3ZnIj4KICA8cmVjdCB3aWR0aD0iNTEyIiBoZWlnaHQ9IjUxMiIgZmlsbD0iI2Y3ZjhmOSIvPgogIDx0ZXh0IH'' @
     ''g9IjUwJSIgeT0iNDAlIiBmb250LWZhbWlseT0iQXJpYWwsIHNhbnMtc2VyaWYiIGZvbnQtc2l6ZT0iMjQiIGZpbGw9IiM2Yj'' @
     ''czODAiIHRleHQtYW5jaG9yPSJtaWRkbGUiPgogICAgUmVzdG9yZWQgU3RydWN0dXJlCiAgPC90ZXh0PgogIDx0ZXh0IHg9Ij'' @
     ''UwJSIgeT0iNjAlIiBmb250LWZhbWlseT0iQXJpYWwsIHNhbnMtc2VyaWYiIGZvbnQtc2l6ZT0iMTYiIGZpbGw9IiM5Y2EzYW'' @
     ''YiIHRleHQtYW5jaG9yPSJtaWRkbGUiPgogICAgVmlzdWFsaXphdGlvbgogIDwvdGV4dD4KPC9zdmc+''\<close>

definition quotaExceededAdvice :: string where
  \<open>quotaExceededAdvice =
     ''\<newline>'' @
     ''\<newline>'' @
     ''Maximum retry attempts reached. API Quota Exceeded\<newline>'' @
     ''The application has reached its API usage limit. Please:\<newline>'' @
     ''1. Try again later\<newline>'' @
     ''2. Check your Google Cloud Console for quota status\<newline>'' @
     ''3. Consider upgrading your API quota if needed\<newline>'' @
     ''\<newline>'' @
     ''For more information, visit: https://ai.google.dev/gemini-api/docs/rate-limits''\<close>

definition accessDeniedMessage :: string where
  \<open>accessDeniedMessage =
     ''API access denied. Please check your API key and billing status. Make sure your API key '' @
     ''is valid and has the necessary permissions.''\<close>

section \<open>Retry with backoff\<close>

record retry_config =
  maxRetries :: nat
  initialDelay :: int
  maxDelay :: int
  backoffFactor :: int

definition RETRY_CONFIG :: retry_config where
  "RETRY_CONFIG = \<lparr>maxRetries = 3, initialDelay = 2000, maxDelay = 30000, backoffFactor = 2\<rparr>"

text \<open>
  \<^verbatim>\<open>Math.ceil(waitTime / 1000)\<close> printed in a template literal; the ceiling of an integer
  quotient is \<open>- ((- a) div b)\<close>, and the wait time is never negative.
\<close>

fun show_seconds :: "int option \<Rightarrow> string" where
  "show_seconds None = ''NaN''"
| "show_seconds (Some waitTime) = show_nat (nat (- ((- waitTime) div 1000)))"

definition rateLimitMessage :: "int option \<Rightarrow> string" where
  "rateLimitMessage waitTime =
     ''Rate limit reached. Please wait '' @ show_seconds waitTime @ '' seconds.''"

text \<open>Only quota and rate limit errors are retried.\<close>

definition retryable :: "string \<Rightarrow> bool" where
  "retryable m =
     (str_includes m ''quota'' \<or> str_includes m ''429'' \<or> str_includes m ''Rate limit'')"

text \<open>
  What one pass through the loop did, for the statements about a run: the rate limiter
  refused it (the operation was not invoked), the operation was invoked and threw, the
  operation returned, or the loop slept for the given delay.
\<close>

datatype step = Refused thrown | Failed thrown | Returned | Slept int

text \<open>The \<^verbatim>\<open>try\<close> block of one attempt. An operation is a function of the page.\<close>

definition attempt_try ::
  "env \<Rightarrow> (world \<Rightarrow> (thrown + 'a) \<times> world) \<Rightarrow> world \<Rightarrow> (thrown + 'a) \<times> step \<times> world" where
  "attempt_try env operation w =
     (case canMakeRequest (now env w) w of
        (False, w1) \<Rightarrow>
          (case getNextAvailableTime (now env w1) w1 of
             (waitTime, w2) \<Rightarrow>
               (Inl (Err (rateLimitMessage waitTime)), Refused (Err (rateLimitMessage waitTime)), w2))
      | (True, w1) \<Rightarrow>
          (case operation w1 of
             (Inl e, w2) \<Rightarrow> (Inl e, Failed e, w2)
           | (Inr result, w2) \<Rightarrow> (Inr result, Returned, recordRequest (now env w2) w2)))"

text \<open>
  The \<^verbatim>\<open>for\<close> loop, from the attempt \<open>attempt\<close> on, with the current \<open>delay\<close> and \<open>lastError\<close>.
  Sleeping is a suspension point. The result carries the steps taken. Inside the loop
  \<open>maxRetries\<close> is positive, so the subtraction on natural numbers is the one of the source.
\<close>

function retry_loop ::
  "env \<Rightarrow> (world \<Rightarrow> (thrown + 'a) \<times> world) \<Rightarrow> retry_config \<Rightarrow> nat \<Rightarrow> int \<Rightarrow> thrown \<Rightarrow> world
     \<Rightarrow> (thrown + 'a) \<times> step list \<times> world" where
  "retry_loop env operation retryConfig attempt delay lastError w =
     (if attempt < maxRetries retryConfig then
        (case attempt_try env operation w of
           (Inr result, s, w1) \<Rightarrow> (Inr result, [s], w1)
         | (Inl e, s, w1) \<Rightarrow>
             if \<not> retryable (message (toError e)) then (Inl (toError e), [s], w1)
             else if attempt < maxRetries retryConfig - 1 then
               (case retry_loop env operation retryConfig (Suc attempt)
                       (min (delay * backoffFactor retryConfig) (maxDelay retryConfig))
                       (toError e) (tick w1) of
                  (r, ss, w2) \<Rightarrow> (r, s # Slept delay # ss, w2))
             else
               (case retry_loop env operation retryConfig (Suc attempt) delay (toError e) w1 of
                  (r, ss, w2) \<Rightarrow> (r, s # ss, w2)))
      else (Inl lastError, [], w))"
  by pat_completeness auto
termination
  by (relation "measure (\<lambda>(env, operation, retryConfig, attempt, delay, lastError, w).
                  maxRetries retryConfig - attempt)") auto

declare retry_loop.simps [simp del]

text \<open>\<^verbatim>\<open>lastError\<close> starts as \<^verbatim>\<open>null\<close>.\<close>

definition retryWithBackoff ::
  "env \<Rightarrow> (world \<Rightarrow> (thrown + 'a) \<times> world) \<Rightarrow> retry_config \<Rightarrow> world
     \<Rightarrow> (thrown + 'a) \<times> step list \<times> world" where
  "retryWithBackoff env operation retryConfig w =
     retry_loop env operation retryConfig 0 (initialDelay retryConfig) (Thrown ''null'') w"

section \<open>The remote calls\<close>

definition set_ui :: "(ui_state \<Rightarrow> ui_state) \<Rightarrow> world \<Rightarrow> world" where
  "set_ui f w = w\<lparr>ui := f (ui w)\<rparr>"

definition apiKeyMissing :: string where
  "apiKeyMissing = ''Gemini API key not found. Please add VITE_GEMINI_API_KEY to your .env file.''"

text \<open>The inner \<^verbatim>\<open>catch\<close> of the analysis operation.\<close>

definition rethrow :: "thrown \<Rightarrow> thrown" where
  "rethrow e =
     (if instanceofError e then e
      else Err ''An unexpected error occurred while calling the Gemini API'')"

text \<open>
  The operation \<^verbatim>\<open>callGeminiVision\<close> hands to \<^const>\<open>retryWithBackoff\<close>. Sending the request
  counts it and is a suspension point; so is the hashing inside \<^const>\<open>set_cache\<close>.
\<close>

definition analysisOperation ::
  "env \<Rightarrow> string \<Rightarrow> string \<Rightarrow> string \<Rightarrow> world \<Rightarrow> (thrown + string) \<times> world" where
  "analysisOperation env imageUrl imageBase64 prompt w =
     (case canMakeRequest (now env w) w of
        (False, w1) \<Rightarrow>
          (case getNextAvailableTime (now env w1) w1 of
             (waitTime, w2) \<Rightarrow>
               (Inl (Err (rateLimitMessage waitTime)),
                set_ui (\<lambda>u. u\<lparr>rateLimitStatus := Some (rateLimitMessage waitTime)\<rparr>) w2))
      | (True, w1) \<Rightarrow>
          (let w2 = tick (w1\<lparr>requests := Suc (requests w1)\<rparr>) in
           case analysisEndpoint env (requests w1) prompt imageBase64 of
             Rejects e \<Rightarrow> (Inl (rethrow e), w2)
           | Responds status body \<Rightarrow>
               if \<not> response_ok status then
                 (if status = 429 then
                    (Inl (Err ''API quota exceeded. Retrying automatically...''),
                     set_ui (\<lambda>u. u\<lparr>retryCount := retryCount u + 1,
                                    retryDelay :=
                                      min (if retryDelay u * 2 = 0 then initialDelay RETRY_CONFIG
                                           else retryDelay u * 2)
                                          (maxDelay RETRY_CONFIG)\<rparr>) w2)
                  else if status = 403 then (Inl (Err accessDeniedMessage), w2)
                  else (case error_message body of
                          Some m \<Rightarrow>
                            if m \<noteq> [] then (Inl (Err (''Gemini API error: '' @ m)), w2)
                            else (Inl (Err (''API request failed with status '' @ show_nat status)), w2)
                        | None \<Rightarrow>
                            (Inl (Err (''API request failed with status '' @ show_nat status)), w2)))
               else
                 (case candidate_text body of
                    None \<Rightarrow> (Inl (Err ''No response generated from Gemini''), w2)
                  | Some result \<Rightarrow>
                      (case set_cache env (now env (tick w2)) imageUrl prompt result (tick w2) of
                         (Inl e, w3) \<Rightarrow> (Inl (rethrow e), w3)
                       | (Inr u, w3) \<Rightarrow>
                           (Inr result,
                            set_ui (\<lambda>u. u\<lparr>retryCount := 0, retryDelay := 0,
                                           cacheStatus := None, rateLimitStatus := None\<rparr>) w3)))))"

text \<open>
  \<^verbatim>\<open>uploadedImage\<close> is the value the handler captured. A cached result counts when it is
  truthy. Hashing the image inside \<^const>\<open>get\<close> is a suspension point.
\<close>

definition callGeminiVision ::
  "env \<Rightarrow> string \<Rightarrow> string \<Rightarrow> string \<Rightarrow> world \<Rightarrow> (thrown + string) \<times> world" where
  "callGeminiVision env uploaded imageBase64 prompt w =
     (if \<not> truthy (apiKey env) then (Inl (Err apiKeyMissing), w)
      else
        (case get env (now env (tick w)) uploaded prompt (tick w) of
           (Inl e, w1) \<Rightarrow> (Inl e, w1)
         | (Inr cachedResult, w1) \<Rightarrow>
             (case cachedResult of
                Some cached \<Rightarrow>
                  if cached \<noteq> [] then
                    (Inr cached, set_ui (\<lambda>u. u\<lparr>cacheStatus := Some ''Using cached result''\<rparr>) w1)
                  else
                    (case retryWithBackoff env (analysisOperation env uploaded imageBase64 prompt)
                            RETRY_CONFIG
                            (set_ui (\<lambda>u. u\<lparr>cacheStatus := Some ''Cache miss - calling API''\<rparr>) w1) of
                       (r, ss, w2) \<Rightarrow> (r, w2))
              | None \<Rightarrow>
                  (case retryWithBackoff env (analysisOperation env uploaded imageBase64 prompt)
                          RETRY_CONFIG
                          (set_ui (\<lambda>u. u\<lparr>cacheStatus := Some ''Cache miss - calling API''\<rparr>) w1) of
                     (r, ss, w2) \<Rightarrow> (r, w2)))))"

text \<open>
  With no candidate in an accepted reply, reading \<^verbatim>\<open>data.candidates[0]\<close> throws a
  \<^verbatim>\<open>TypeError\<close>, whose message is the engine's.
\<close>

definition generateImageDescription ::
  "env \<Rightarrow> string \<Rightarrow> world \<Rightarrow> (thrown + string) \<times> world" where
  "generateImageDescription env analysisText w =
     (if \<not> truthy (apiKey env) then (Inl (Err apiKeyMissing), w)
      else
        (case descriptionEndpoint env (imagePrompt analysisText) of
           Rejects e \<Rightarrow> (Inl e, tick w)
         | Responds status body \<Rightarrow>
             if \<not> response_ok status then
               (Inl (Err (''Gemini API error: '' @
                          (if truthy (error_message body) then the (error_message body)
                           else ''Unknown error''))),
                tick w)
             else
               (case candidate_text body of
                  None \<Rightarrow> (Inl (Err ''Cannot read properties of undefined''), tick w)
                | Some t \<Rightarrow> (Inr t, tick w))))"

definition generateRepairedImageWithGemini ::
  "env \<Rightarrow> string \<Rightarrow> world \<Rightarrow> (thrown + string) \<times> world" where
  "generateRepairedImageWithGemini env description w =
     (if \<not> truthy (apiKey env) then (Inl (Err apiKeyMissing), w)
      else
        (case generateImageDescription env description w of
           (Inl e, w1) \<Rightarrow> (Inl e, w1)
         | (Inr enhancedDescription, w1) \<Rightarrow>
             (case imageEndpoint env (imagenPrompt enhancedDescription) of
                Rejects e \<Rightarrow> (Inl e, tick w1)
              | Responds status body \<Rightarrow>
                  if \<not> response_ok status then (Inr placeholderImage, tick w1)
                  else
                    (case body of
                       GeneratedImage bytesBase64Encoded \<Rightarrow>
                         (Inr (''data:image/png;base64,'' @
                               (case bytesBase64Encoded of Some b \<Rightarrow> b | None \<Rightarrow> ''undefined'')),
                          tick w1)
                     | NoGeneratedImage \<Rightarrow> (Inr placeholderImage, tick w1)))))"

section \<open>Parsing the analysis\<close>

text \<open>
  \<^verbatim>\<open>analysisResponse.match(/\{[\s\S]*\}/)\<close>: the match starts at the first opening brace that
  has a closing brace after it, which is the first opening brace of the text, and the greedy
  star takes it to the last closing brace.
\<close>

definition jsonMatch :: "string \<Rightarrow> string option" where
  "jsonMatch s =
     (let t = dropWhile (\<lambda>c. c \<noteq> CHR ''{'') s
      in if CHR ''}'' \<in> set t
         then Some (rev (dropWhile (\<lambda>c. c \<noteq> CHR ''}'') (rev t)))
         else None)"

definition rupee :: string where
  "rupee = [CHR 0xE2, CHR 0x82, CHR 0xB9]"

text \<open>The object of the \<^verbatim>\<open>catch\<close> branch, as its members (the rupee sign in UTF-8).\<close>

definition fallbackResponse :: "string \<Rightarrow> (string \<times> json) list" where
  "fallbackResponse analysisResponse =
     [(''repair_description'',
         JObj [(''current_state'', JStr analysisResponse),
               (''completion_requirements'', JStr ''See detailed analysis above''),
               (''safety_measures'', JStr ''Standard safety protocols apply''),
               (''recommendations'', JStr ''Follow standard construction guidelines'')]),
      (''cost_estimation'',
         JObj [(''total'', JStr (rupee @ ''3,00,000 INR'')),
               (''breakdown'',
                  JObj [(''materials'', JStr (rupee @ ''1,00,000 INR'')),
                        (''labor'', JStr (rupee @ ''1,50,000 INR'')),
                        (''permits'', JStr (rupee @ ''25,000 INR'')),
                        (''safety_equipment'', JStr (rupee @ ''25,000 INR''))])]),
      (''timeline'',
         JObj [(''estimated_duration'', JStr ''3 months''),
               (''phases'',
                  JArr [JStr ''Phase 1: Initial assessment and planning'',
                        JStr ''Phase 2: Construction and completion''])])]"

definition parseAnalysis :: "env \<Rightarrow> string \<Rightarrow> (string \<times> json) list" where
  "parseAnalysis env analysisResponse =
     (case jsonMatch analysisResponse of
        Some m \<Rightarrow>
          (case JSON_parse env m of
             Some parsedResponse \<Rightarrow> parsedResponse
           | None \<Rightarrow> fallbackResponse analysisResponse)
      | None \<Rightarrow> fallbackResponse analysisResponse)"

text \<open>A member that is missing reads as \<^verbatim>\<open>undefined\<close>.\<close>

definition finalReportData :: "env \<Rightarrow> string \<Rightarrow> (string \<times> json) list \<Rightarrow> ReportData" where
  "finalReportData env repairedImageUrl parsedResponse =
     \<lparr>repaired_image_url = repairedImageUrl,
      repair_description = JSON_stringify env (map_of parsedResponse ''repair_description''),
      cost_estimation = map_of parsedResponse ''cost_estimation'',
      timeline = map_of parsedResponse ''timeline''\<rparr>"

section \<open>The handler\<close>

text \<open>
  The \<^verbatim>\<open>try\<close> block of \<^verbatim>\<open>handleGenerateReport\<close>, with the image and the description the
  handler captured. Transcoding the image is a suspension point.
\<close>

definition generateReport_try ::
  "env \<Rightarrow> string \<Rightarrow> string \<Rightarrow> world \<Rightarrow> (thrown + unit) \<times> world" where
  "generateReport_try env uploaded description w =
     (case convertImageToBase64 env uploaded of
        Inl e \<Rightarrow> (Inl e, tick w)
      | Inr imageBase64 \<Rightarrow>
          (case callGeminiVision env uploaded imageBase64 (fullPrompt description)
                  (set_ui (\<lambda>u. u\<lparr>processingStep := ''Analyzing infrastructure with Gemini AI...''\<rparr>)
                     (tick w)) of
             (Inl e, w1) \<Rightarrow> (Inl e, w1)
           | (Inr analysisResponse, w1) \<Rightarrow>
               (case generateRepairedImageWithGemini env analysisResponse
                       (set_ui (\<lambda>u. u\<lparr>processingStep :=
                                  ''Generating completed infrastructure visualization...''\<rparr>) w1) of
                  (Inl e, w2) \<Rightarrow> (Inl e, w2)
                | (Inr repairedImageUrl, w2) \<Rightarrow>
                    (Inr (),
                     set_ui (\<lambda>u. u\<lparr>reportData :=
                                      Some (finalReportData env repairedImageUrl
                                              (parseAnalysis env analysisResponse)),
                                    processingStep := ''''\<rparr>) w2))))"

text \<open>
  The message of the \<^verbatim>\<open>catch\<close> block. \<open>captured\<close> is the \<^verbatim>\<open>retryCount\<close> of the handler's
  closure: the constant of the render in which the handler was created.
\<close>

definition errorMessage :: "nat \<Rightarrow> thrown \<Rightarrow> string" where
  "errorMessage captured err =
     (if instanceofError err then
        (if str_includes (message err) ''quota'' \<or> str_includes (message err) ''429'' then
           (if maxRetries RETRY_CONFIG \<le> captured
            then ''Failed to generate report. '' @ quotaExceededAdvice
            else ''Retrying automatically (Attempt '' @ show_nat (captured + 1) @ ''/'' @
                 show_nat (maxRetries RETRY_CONFIG) @ '')...'')
         else ''Failed to generate report. '' @ message err)
      else ''Failed to generate report. An unexpected error occurred. Please try again.'')"

definition generateReport_catch :: "nat \<Rightarrow> thrown \<Rightarrow> world \<Rightarrow> world" where
  "generateReport_catch captured err w =
     (if \<not> str_includes (errorMessage captured err) ''Retrying''
      then set_ui (\<lambda>u. u\<lparr>error := Some (errorMessage captured err), processingStep := ''''\<rparr>) w
      else set_ui (\<lambda>u. u\<lparr>error := Some (errorMessage captured err)\<rparr>) w)"

text \<open>The five setters before the \<^verbatim>\<open>try\<close> block.\<close>

definition begin_run :: "world \<Rightarrow> world" where
  "begin_run w =
     set_ui (\<lambda>u. u\<lparr>isLoading := True, error := None, processingStep := ''Converting image...'',
                    retryCount := 0, retryDelay := 0\<rparr>) w"

text \<open>
  \<^verbatim>\<open>handleGenerateReport\<close> reads \<^verbatim>\<open>uploadedImage\<close>, \<^verbatim>\<open>userDescription\<close> and \<^verbatim>\<open>retryCount\<close> from
  its closure, the state \<open>r\<close> of the render that created it; the setters act on the state of
  the page.
\<close>

definition handleGenerateReport :: "env \<Rightarrow> ui_state \<Rightarrow> world \<Rightarrow> world" where
  "handleGenerateReport env r w =
     (case uploadedImage r of
        None \<Rightarrow> set_ui (\<lambda>u. u\<lparr>error := Some ''Please upload an image of the infrastructure.''\<rparr>) w
      | Some uploaded \<Rightarrow>
          if uploaded = [] then
            set_ui (\<lambda>u. u\<lparr>error := Some ''Please upload an image of the infrastructure.''\<rparr>) w
          else if trim (userDescription r) = [] then
            set_ui (\<lambda>u. u\<lparr>error := Some
              ''Please provide a description of the infrastructure and what needs to be completed.''\<rparr>) w
          else
            (let w1 = (case generateReport_try env uploaded (userDescription r) (begin_run w) of
                         (Inr u, w') \<Rightarrow> w'
                       | (Inl err, w') \<Rightarrow> generateReport_catch (retryCount r) err w')
             in if maxRetries RETRY_CONFIG \<le> retryCount r
                then set_ui (\<lambda>u. u\<lparr>isLoading := False\<rparr>) w1
                else w1))"

section \<open>The page\<close>

definition handleImageUpload :: "string \<Rightarrow> world \<Rightarrow> world" where
  "handleImageUpload imageUrl w =
     set_ui (\<lambda>u. u\<lparr>uploadedImage := Some imageUrl, error := None, reportData := None\<rparr>) w"

definition canGenerateReport :: "ui_state \<Rightarrow> bool" where
  "canGenerateReport u = (truthy (uploadedImage u) \<and> \<not> isLoading u)"

text \<open>
  What the user can do: upload an image, edit the description, and press the button, which
  is disabled unless \<^const>\<open>canGenerateReport\<close> holds; the press runs the handler of the
  current render (with the environment's behaviour during that run) to its end.
\<close>

datatype event = ImageUpload string | DescriptionChange string | GenerateClick env

fun handle :: "event \<Rightarrow> world \<Rightarrow> world" where
  "handle (ImageUpload imageUrl) w = handleImageUpload imageUrl w"
| "handle (DescriptionChange d) w = set_ui (\<lambda>u. u\<lparr>userDescription := d\<rparr>) w"
| "handle (GenerateClick env) w =
     (if canGenerateReport (ui w) then handleGenerateReport env (ui w) w else w)"

definition initial_ui :: ui_state where
  "initial_ui =
     \<lparr>uploadedImage = None, userDescription = '''', isLoading = False, reportData = None,
      error = None, processingStep = '''', retryCount = 0, retryDelay = 0,
      cacheStatus = None, rateLimitStatus = None\<rparr>"

text \<open>Loading the page creates the module's cache manager from the stored item.\<close>

definition page_load :: "stored \<Rightarrow> world" where
  "page_load s =
     \<lparr>ui = initial_ui, cacheManager = new_CacheManager s, localStorage = s,
      time = 0, requests = 0\<rparr>"

definition session :: "stored \<Rightarrow> event list \<Rightarrow> world" where
  "session s evs = fold handle evs (page_load s)"

section \<open>The first balanced block, as the specification words it\<close>

text \<open>
  The specification's parse step scans for the first balanced block: from the first opening
  brace to the closing brace that matches it. \<open>scan_block d\<close> reads on with \<open>d\<close> braces open.
\<close>

fun scan_block :: "nat \<Rightarrow> string \<Rightarrow> string option" where
  "scan_block d [] = None"
| "scan_block d (c # cs) =
     (if c = CHR ''{'' then map_option ((#) c) (scan_block (Suc d) cs)
      else if c = CHR ''}'' then
        (if d \<le> 1 then Some [c] else map_option ((#) c) (scan_block (d - 1) cs))
      else map_option ((#) c) (scan_block d cs))"

definition spec_first_balanced_block :: "string \<Rightarrow> string option" where
  "spec_first_balanced_block s = scan_block 0 (dropWhile (\<lambda>c. c \<noteq> CHR ''{'') s)"

section \<open>Observing a run\<close>

text \<open>Of the steps of a retried call: how often the operation was invoked, how often the
  rate limiter refused, and the delays slept, in order.\<close>

definition invocations :: "step list \<Rightarrow> nat" where
  "invocations ss =
     length (filter (\<lambda>s. case s of Failed e \<Rightarrow> True | Returned \<Rightarrow> True | Refused e \<Rightarrow> False
                             | Slept d \<Rightarrow> False) ss)"

definition refusals :: "step list \<Rightarrow> nat" where
  "refusals ss =
     length (filter (\<lambda>s. case s of Refused e \<Rightarrow> True | Failed e \<Rightarrow> False | Returned \<Rightarrow> False
                             | Slept d \<Rightarrow> False) ss)"

definition sleeps :: "step list \<Rightarrow> int list" where
  "sleeps ss =
     concat (map (\<lambda>s. case s of Slept d \<Rightarrow> [d] | Refused e \<Rightarrow> [] | Failed e \<Rightarrow> []
                          | Returned \<Rightarrow> []) ss)"

text \<open>
  What an attempt that fails in the state \<open>w\<close> is, by the rate limiter and the operation
  themselves: when \<^const>\<open>canMakeRequest\<close> admits it, the operation is invoked in the state that
  check left and throws \<open>e\<close>; when it refuses, the operation is not invoked, and \<open>e\<close> is the
  rate limit error with the wait of \<^const>\<open>getNextAvailableTime\<close>.
\<close>

definition failed_attempt ::
  "env \<Rightarrow> (world \<Rightarrow> (thrown + 'a) \<times> world) \<Rightarrow> world \<Rightarrow> thrown \<Rightarrow> step \<Rightarrow> world \<Rightarrow> bool" where
  "failed_attempt env operation w e s w' =
     (case canMakeRequest (now env w) w of
        (True, w1) \<Rightarrow> operation w1 = (Inl e, w') \<and> s = Failed e
      | (False, w1) \<Rightarrow>
          s = Refused e \<and>
          e = Err (rateLimitMessage (fst (getNextAvailableTime (now env w1) w1))) \<and>
          w' = snd (getNextAvailableTime (now env w1) w1))"

text \<open>An operation that leaves no more request timestamps than it finds.\<close>

definition records_nothing :: "(world \<Rightarrow> (thrown + 'a) \<times> world) \<Rightarrow> bool" where
  "records_nothing operation =
     (\<forall>v. length (requestTimestamps (cacheManager (snd (operation v))))
            \<le> length (requestTimestamps (cacheManager v)))"

text \<open>The calls of the manager's methods other than \<^verbatim>\<open>set\<close>, with the clock reading of each.\<close>

datatype manager_call =
  Get int string string | CanMakeRequest int | RecordRequest int | GetNextAvailableTime int

fun perform :: "env \<Rightarrow> manager_call \<Rightarrow> world \<Rightarrow> world" where
  "perform env (Get t imageUrl prompt) w = snd (get env t imageUrl prompt w)"
| "perform env (CanMakeRequest t) w = snd (canMakeRequest t w)"
| "perform env (RecordRequest t) w = recordRequest t w"
| "perform env (GetNextAvailableTime t) w = snd (getNextAvailableTime t w)"

text \<open>
  A concrete environment for the examples: the key, and the replies of the analysis endpoint
  (by request number), of the description endpoint and of the image endpoint are given; every
  suspension takes five seconds, every image hashes and transcodes, the storage accepts every
  write and \<^verbatim>\<open>JSON.parse\<close> rejects every text.
\<close>

definition scenario ::
  "string option \<Rightarrow> (nat \<Rightarrow> gen_body fetched) \<Rightarrow> gen_body fetched \<Rightarrow> generated fetched \<Rightarrow> env" where
  "scenario key analysisReply descriptionReply imageReply =
     \<lparr>apiKey = key,
      clock = (\<lambda>n. int n * 5000),
      generateImageHash = (\<lambda>url. Inr ''a3f1''),
      convertImageToBase64 = (\<lambda>url. Inr ''/9j/4AAQ''),
      storageAccepts = (\<lambda>c. True),
      analysisEndpoint = (\<lambda>n prompt imageData. analysisReply n),
      descriptionEndpoint = (\<lambda>prompt. descriptionReply),
      imageEndpoint = (\<lambda>prompt. imageReply),
      JSON_parse = (\<lambda>s. None),
      JSON_stringify = (\<lambda>j. None)\<rparr>"

text \<open>The same with a configured key and every remote call rejected.\<close>

definition offline :: env where
  "offline =
     scenario (Some ''AIza-key'') (\<lambda>n. Rejects (Err ''Failed to fetch''))
       (Rejects (Err ''Failed to fetch'')) (Rejects (Err ''Failed to fetch''))"

text \<open>Every remote call answers: the analysis with a text that holds no brace, the
  description with a text, the image endpoint with a status that is not accepted.\<close>

definition analysis_succeeds :: env where
  "analysis_succeeds =
     scenario (Some ''AIza-key'')
       (\<lambda>n. Responds 200
          \<lparr>error_message = None, candidate_text = Some ''The beam shows a crack.''\<rparr>)
       (Responds 200 \<lparr>error_message = None, candidate_text = Some ''A restored viaduct''\<rparr>)
       (Responds 404 NoGeneratedImage)"

text \<open>The analysis endpoint answers every request with the status 429 and an error body.\<close>

definition quota_exhausted :: env where
  "quota_exhausted =
     scenario (Some ''AIza-key'')
       (\<lambda>n. Responds 429
          \<lparr>error_message = Some ''Resource has been exhausted'', candidate_text = None\<rparr>)
       (Rejects (Err ''Failed to fetch'')) (Rejects (Err ''Failed to fetch''))"


text \<open>The analysis answers; the description request is rejected by the network.\<close>

definition description_rejected :: env where
  "description_rejected =
     scenario (Some ''AIza-key'')
       (\<lambda>n. Responds 200
          \<lparr>error_message = None, candidate_text = Some ''The beam shows a crack.''\<rparr>)
       (Rejects (Err ''Failed to fetch'')) (Responds 404 NoGeneratedImage)"

text \<open>The storage refuses every write; otherwise as \<^const>\<open>offline\<close>.\<close>

definition storage_full :: env where
  "storage_full = offline\<lparr>storageAccepts := (\<lambda>c. False)\<rparr>"

text \<open>The user's steps before the button is pressed, in the examples.\<close>

definition prepared :: "stored \<Rightarrow> world" where
  "prepared s =
     session s [ImageUpload ''data:image/png;base64,iVBORw0KGgo='',
                DescriptionChange ''crack in beam'']"

text \<open>A stored cache with one entry for the prepared image and description.\<close>

definition cached :: "int \<Rightarrow> string \<Rightarrow> stored" where
  "cached t d =
     Saved [(cacheKey ''a3f1'' (fullPrompt ''crack in beam''),
             \<lparr>data = d, timestamp = t, imageHash = ''a3f1''\<rparr>)]"

section \<open>Properties of the page used in the proofs\<close>

text \<open>The cells of the React state that the analysis call never writes.\<close>

definition core ::
  "ui_state \<Rightarrow> string option \<times> string \<times> bool \<times> ReportData option \<times> string option \<times> string" where
  "core u =
     (uploadedImage u, userDescription u, isLoading u, reportData u, error u, processingStep u)"

text \<open>The invariant of the page: while it is not loading, no retry has been counted and no
  report is set.\<close>

definition settled :: "world \<Rightarrow> bool" where
  "settled w = (isLoading (ui w) \<or> (retryCount (ui w) = 0 \<and> reportData (ui w) = None))"

section \<open>The rate limiter\<close>

lemma requests_tick [simp]: "requests (tick w) = requests w"
  by (simp add: tick_def)

lemma cacheManager_tick [simp]: "cacheManager (tick w) = cacheManager w"
  by (simp add: tick_def)

lemma requestTimestamps_recordRequests:
  "requestTimestamps (cacheManager (recordRequests ts w)) = requestTimestamps (cacheManager w) @ ts"
  by (induction ts arbitrary: w) (simp_all add: recordRequest_def set_requestTimestamps_def)

lemma requestTimestamps_canMakeRequest:
  "requestTimestamps (cacheManager (snd (canMakeRequest t w))) =
     filter (\<lambda>x. t - x < cooldownPeriod) (requestTimestamps (cacheManager w))"
  by (simp add: canMakeRequest_def set_requestTimestamps_def Let_def)

lemma fst_canMakeRequest:
  "fst (canMakeRequest t w) =
     (length (filter (\<lambda>x. t - x < cooldownPeriod) (requestTimestamps (cacheManager w)))
        < maxRequestsPerMinute)"
  by (simp add: canMakeRequest_def Let_def)

text \<open>
  C7. Let \<^const>\<open>maxRequestsPerMinute\<close> requests be recorded, at the clock readings \<open>ts\<close>. If at
  the time \<open>t1\<close> all of them are inside the window, \<^const>\<open>canMakeRequest\<close> answers no, whatever
  was recorded before. If they were recorded by a fresh manager and at the time \<open>t2\<close> the
  oldest of them is \<^const>\<open>cooldownPeriod\<close> or more in the past, the next \<^const>\<open>canMakeRequest\<close>
  answers yes, with nothing recorded in between: the check first drops every timestamp that
  is not less than \<^const>\<open>cooldownPeriod\<close> old and then compares the count.
\<close>

theorem rate_limiter_window:
  "length ts = maxRequestsPerMinute \<Longrightarrow>
     ((\<forall>x \<in> set ts. t1 - x < cooldownPeriod)
        \<longrightarrow> \<not> fst (canMakeRequest t1 (recordRequests ts w))) \<and>
     (requestTimestamps (cacheManager w) = [] \<and> cooldownPeriod \<le> t2 - Min (set ts)
        \<longrightarrow> fst (canMakeRequest t2 (snd (canMakeRequest t1 (recordRequests ts w)))))"
proof (intro conjI impI)
  assume n: "length ts = maxRequestsPerMinute"
    and "\<forall>x \<in> set ts. t1 - x < cooldownPeriod"
  then have "filter (\<lambda>x. t1 - x < cooldownPeriod) ts = ts" by simp
  then show "\<not> fst (canMakeRequest t1 (recordRequests ts w))"
    using n by (simp add: fst_canMakeRequest requestTimestamps_recordRequests)
next
  assume n: "length ts = maxRequestsPerMinute"
    and a: "requestTimestamps (cacheManager w) = [] \<and> cooldownPeriod \<le> t2 - Min (set ts)"
  from n have "ts \<noteq> []" by (auto simp: maxRequestsPerMinute_def)
  then have m: "Min (set ts) \<in> set ts" by simp
  let ?P = "\<lambda>x. t2 - x < cooldownPeriod"
  let ?Q = "\<lambda>x. t1 - x < cooldownPeriod"
  have "length (filter ?P (filter ?Q ts)) \<le> length (filter ?P ts)"
    by (induction ts) auto
  moreover have "length (filter ?P ts) < length ts"
    using m a by (intro length_filter_less[of "Min (set ts)"]) auto
  ultimately show "fst (canMakeRequest t2 (snd (canMakeRequest t1 (recordRequests ts w))))"
    using n a by (simp add: fst_canMakeRequest requestTimestamps_canMakeRequest
        requestTimestamps_recordRequests)
qed

theorem rate_limiter_window_witness:
  "\<not> fst (canMakeRequest 59999
            (recordRequests [0, 1000, 2000, 3000, 4000, 5000, 6000, 7000, 8000, 9000]
               (page_load Absent))) \<and>
   fst (canMakeRequest 60000
         (snd (canMakeRequest 59999
            (recordRequests [0, 1000, 2000, 3000, 4000, 5000, 6000, 7000, 8000, 9000]
               (page_load Absent)))))"
  using rate_limiter_window [of "[0, 1000, 2000, 3000, 4000, 5000, 6000, 7000, 8000, 9000]"
      59999 "page_load Absent" 60000]
  by (simp add: maxRequestsPerMinute_def cooldownPeriod_def page_load_def new_CacheManager_def)

section \<open>The cache\<close>

lemma sort_key_Nil_iff: "sort_key f xs = [] \<longleftrightarrow> xs = []"
  by (metis length_0_conv length_sort)

lemma cache_set_cache_map [simp]: "cache (cacheManager (set_cache_map c w)) = c"
  by (simp add: set_cache_map_def)

lemma localStorage_set_cache_map [simp]: "localStorage (set_cache_map c w) = localStorage w"
  by (simp add: set_cache_map_def)

lemma cache_saveToLocalStorage [simp]:
  "cache (cacheManager (saveToLocalStorage env w)) = cache (cacheManager w)"
  by (simp add: saveToLocalStorage_def)

lemma set_cache_stores:
  assumes h: "generateImageHash env imageUrl = Inr h"
  shows "\<exists>w1. set_cache env t imageUrl prompt v w = (Inr (), w1) \<and>
           map_of (cache (cacheManager w1)) (cacheKey h prompt)
             = Some \<lparr>data = v, timestamp = t, imageHash = h\<rparr>"
proof (cases "maxEntries \<le> length (cache (cacheManager w))")
  case True
  then have "cache (cacheManager w) \<noteq> []" by (auto simp: maxEntries_def)
  then obtain oldest rest where
    s: "sort_key (\<lambda>p. timestamp (snd p)) (cache (cacheManager w)) = oldest # rest"
    by (cases "sort_key (\<lambda>p. timestamp (snd p)) (cache (cacheManager w))")
       (simp_all add: sort_key_Nil_iff)
  show ?thesis using h True s
    by (simp add: set_cache_def Let_def update_conv')
next
  case False
  then show ?thesis using h
    by (simp add: set_cache_def Let_def update_conv')
qed

lemma get_fresh:
  assumes "generateImageHash env imageUrl = Inr h"
    and "map_of (cache (cacheManager w)) (cacheKey h prompt) = Some entry"
    and "t - timestamp entry < maxAge"
  shows "get env t imageUrl prompt w = (Inr (Some (data entry)), w)"
  using assms by (simp add: get_def Let_def)

lemma get_expired:
  assumes "generateImageHash env imageUrl = Inr h"
    and "map_of (cache (cacheManager w)) (cacheKey h prompt) = Some entry"
    and "maxAge \<le> t - timestamp entry"
  shows "get env t imageUrl prompt w =
           (Inr None, set_cache_map (AList.delete (cacheKey h prompt) (cache (cacheManager w))) w)"
  using assms by (simp add: get_def Let_def)

lemma localStorage_get: "localStorage (snd (get env t imageUrl prompt w)) = localStorage w"
  by (simp add: get_def Let_def split: sum.splits option.splits)

text \<open>
  C8. When the image hashes to \<open>h\<close>: a \<^const>\<open>set_cache\<close> at the time \<open>t1\<close> followed by a
  \<^const>\<open>get\<close> with the same image and prompt at a time \<open>t2\<close> less than \<^const>\<open>maxAge\<close> later
  returns the value stored; and a \<^const>\<open>get\<close> that finds an entry whose age is \<^const>\<open>maxAge\<close> or
  more returns nothing and leaves the manager's map without an entry for the key.
\<close>

theorem cache_put_then_get:
  "generateImageHash env imageUrl = Inr h \<Longrightarrow>
     (t2 - t1 < maxAge \<longrightarrow>
        fst (set_cache env t1 imageUrl prompt v w) = Inr () \<and>
        fst (get env t2 imageUrl prompt (snd (set_cache env t1 imageUrl prompt v w)))
          = Inr (Some v)) \<and>
     (map_of (cache (cacheManager w)) (cacheKey h prompt) = Some entry \<and>
      maxAge \<le> t - timestamp entry \<longrightarrow>
        fst (get env t imageUrl prompt w) = Inr None \<and>
        map_of (cache (cacheManager (snd (get env t imageUrl prompt w)))) (cacheKey h prompt)
          = None)"
proof (intro conjI impI)
  assume h: "generateImageHash env imageUrl = Inr h" and fresh: "t2 - t1 < maxAge"
  from set_cache_stores[OF h, of t1 prompt v w] obtain w1 where
    w1: "set_cache env t1 imageUrl prompt v w = (Inr (), w1)"
    and m: "map_of (cache (cacheManager w1)) (cacheKey h prompt)
              = Some \<lparr>data = v, timestamp = t1, imageHash = h\<rparr>"
    by blast
  show "fst (set_cache env t1 imageUrl prompt v w) = Inr ()" by (simp add: w1)
  show "fst (get env t2 imageUrl prompt (snd (set_cache env t1 imageUrl prompt v w)))
          = Inr (Some v)"
    using get_fresh[OF h m] fresh by (simp add: w1)
next
  assume h: "generateImageHash env imageUrl = Inr h"
    and e: "map_of (cache (cacheManager w)) (cacheKey h prompt) = Some entry \<and>
            maxAge \<le> t - timestamp entry"
  then have g: "get env t imageUrl prompt w =
      (Inr None, set_cache_map (AList.delete (cacheKey h prompt) (cache (cacheManager w))) w)"
    by (simp add: get_expired)
  show "fst (get env t imageUrl prompt w) = Inr None" by (simp add: g)
  show "map_of (cache (cacheManager (snd (get env t imageUrl prompt w)))) (cacheKey h prompt)
          = None"
    by (simp add: g delete_conv')
qed

theorem cache_put_then_get_witness:
  "fst (get offline 1000 ''blob:photo'' ''prompt''
         (snd (set_cache offline 0 ''blob:photo'' ''prompt'' ''analysis''
            (page_load (Saved [(''a3f1-prompt'',
                                \<lparr>data = ''old'', timestamp = 0, imageHash = ''a3f1''\<rparr>)])))))
     = Inr (Some ''analysis'') \<and>
   fst (get offline 86400000 ''blob:photo'' ''prompt''
         (page_load (Saved [(''a3f1-prompt'',
                             \<lparr>data = ''old'', timestamp = 0, imageHash = ''a3f1''\<rparr>)])))
     = Inr None \<and>
   map_of (cache (cacheManager (snd (get offline 86400000 ''blob:photo'' ''prompt''
         (page_load (Saved [(''a3f1-prompt'',
                             \<lparr>data = ''old'', timestamp = 0, imageHash = ''a3f1''\<rparr>)]))))))
     ''a3f1-prompt'' = None"
  using cache_put_then_get [of offline "''blob:photo''" "''a3f1''" 1000 0 "''prompt''" "''analysis''"
      "page_load (Saved [(''a3f1-prompt'', \<lparr>data = ''old'', timestamp = 0, imageHash = ''a3f1''\<rparr>)])"
      "\<lparr>data = ''old'', timestamp = 0, imageHash = ''a3f1''\<rparr>" 86400000]
  by (simp add: offline_def scenario_def maxAge_def page_load_def new_CacheManager_def
      loadFromLocalStorage_def cacheKey_def)

lemma localStorage_limiter:
  "localStorage (snd (canMakeRequest t w)) = localStorage w \<and>
   localStorage (recordRequest t w) = localStorage w \<and>
   localStorage (snd (getNextAvailableTime t w)) = localStorage w"
  by (simp add: canMakeRequest_def recordRequest_def getNextAvailableTime_def
      set_requestTimestamps_def Let_def split: list.splits bool.splits)

lemma localStorage_perform: "localStorage (perform env c w) = localStorage w"
  using localStorage_limiter[of _ w]
  by (cases c) (simp_all add: localStorage_get)

lemma localStorage_performs: "localStorage (fold (perform env) calls w) = localStorage w"
  by (induction calls arbitrary: w) (simp_all add: localStorage_perform)

text \<open>
  C10, as the code has it. \<^const>\<open>get\<close> leaves the stored item as it is, and so do the methods
  of the rate limiter: of the manager's methods only \<^const>\<open>set_cache\<close> writes it. So when
  \<^const>\<open>get\<close> removes an expired entry that the stored item holds under the same key, the entry
  is gone from the manager's map only. After any further calls of the manager other than
  \<^verbatim>\<open>set\<close> the stored item still holds it, and a manager constructed from the stored item then
  (a page load) has the entry again.
\<close>

theorem get_keeps_localStorage:
  "localStorage (fold (perform env) calls w) = localStorage w \<and>
   (generateImageHash env imageUrl = Inr h \<and>
    map_of (cache (cacheManager w)) (cacheKey h prompt) = Some entry \<and>
    maxAge \<le> t - timestamp entry \<and>
    localStorage w = Saved c \<and> map_of c (cacheKey h prompt) = Some entry \<longrightarrow>
      map_of (cache (cacheManager (snd (get env t imageUrl prompt w)))) (cacheKey h prompt)
        = None \<and>
      map_of (cache (new_CacheManager (localStorage
                (fold (perform env) calls (snd (get env t imageUrl prompt w))))))
        (cacheKey h prompt) = Some entry)"
proof (intro conjI impI)
  show "localStorage (fold (perform env) calls w) = localStorage w"
    by (rule localStorage_performs)
next
  assume a: "generateImageHash env imageUrl = Inr h \<and>
    map_of (cache (cacheManager w)) (cacheKey h prompt) = Some entry \<and>
    maxAge \<le> t - timestamp entry \<and>
    localStorage w = Saved c \<and> map_of c (cacheKey h prompt) = Some entry"
  then have g: "get env t imageUrl prompt w =
      (Inr None, set_cache_map (AList.delete (cacheKey h prompt) (cache (cacheManager w))) w)"
    by (simp add: get_expired)
  show "map_of (cache (cacheManager (snd (get env t imageUrl prompt w)))) (cacheKey h prompt)
          = None"
    by (simp add: g delete_conv')
  show "map_of (cache (new_CacheManager (localStorage
                (fold (perform env) calls (snd (get env t imageUrl prompt w))))))
        (cacheKey h prompt) = Some entry"
    using a by (simp add: localStorage_performs g new_CacheManager_def loadFromLocalStorage_def)
qed

theorem get_keeps_localStorage_witness:
  "map_of (cache (cacheManager (snd (get offline 86400000 ''blob:photo'' ''prompt''
         (page_load (Saved [(''a3f1-prompt'',
                             \<lparr>data = ''old'', timestamp = 0, imageHash = ''a3f1''\<rparr>)]))))))
     ''a3f1-prompt'' = None \<and>
   map_of (cache (new_CacheManager (localStorage
         (fold (perform offline)
            [CanMakeRequest 86400001, RecordRequest 86400002, Get 86400003 ''blob:photo'' ''prompt'']
            (snd (get offline 86400000 ''blob:photo'' ''prompt''
               (page_load (Saved [(''a3f1-prompt'',
                   \<lparr>data = ''old'', timestamp = 0, imageHash = ''a3f1''\<rparr>)]))))))))
     ''a3f1-prompt'' = Some \<lparr>data = ''old'', timestamp = 0, imageHash = ''a3f1''\<rparr>"
  using get_keeps_localStorage [of offline
      "[CanMakeRequest 86400001, RecordRequest 86400002, Get 86400003 ''blob:photo'' ''prompt'']"
      "page_load (Saved [(''a3f1-prompt'', \<lparr>data = ''old'', timestamp = 0, imageHash = ''a3f1''\<rparr>)])"
      "''blob:photo''" "''a3f1''" "''prompt''"
      "\<lparr>data = ''old'', timestamp = 0, imageHash = ''a3f1''\<rparr>" 86400000
      "[(''a3f1-prompt'', \<lparr>data = ''old'', timestamp = 0, imageHash = ''a3f1''\<rparr>)]"]
  by (simp add: offline_def scenario_def maxAge_def page_load_def new_CacheManager_def
      loadFromLocalStorage_def cacheKey_def)

text \<open>
  As C10 is worded it fails. The stored item holds an analysis that is a day old; the run
  looks it up, removes it as expired, asks the endpoint and caches the answer, which
  rewrites the stored item: the next page load finds the new entry only. And an entry whose
  write the storage refused was never stored: once it has expired and a lookup has removed
  it, the next page load finds nothing.
\<close>

theorem expired_entry_not_reloaded_counterexample:
  "fst (get analysis_succeeds 10000 ''data:image/png;base64,iVBORw0KGgo=''
          (fullPrompt ''crack in beam'') (prepared (cached (- 86400000) ''Old analysis'')))
     = Inr None \<and>
   map (\<lambda>p. (data (snd p), timestamp (snd p)))
     (cache (new_CacheManager (localStorage
        (handle (GenerateClick analysis_succeeds)
           (prepared (cached (- 86400000) ''Old analysis''))))))
     = [(''The beam shows a crack.'', 20000)] \<and>
   map (\<lambda>p. data (snd p))
     (cache (cacheManager (snd (set_cache storage_full 0 ''blob:photo'' ''prompt'' ''analysis''
        (page_load Absent)))))
     = [''analysis''] \<and>
   cache (new_CacheManager (localStorage
      (snd (get storage_full 86400000 ''blob:photo'' ''prompt''
         (snd (set_cache storage_full 0 ''blob:photo'' ''prompt'' ''analysis''
            (page_load Absent)))))))
     = []"
  by code_simp

section \<open>Retrying\<close>

lemma retryable_rateLimitMessage: "retryable (rateLimitMessage x)"
  by (simp add: retryable_def rateLimitMessage_def)

lemma attempt_try_failed:
  assumes H: "\<forall>w. \<exists>e w'. operation w = (Inl e, w') \<and> retryable (message (toError e))"
  shows "\<exists>e s w'. attempt_try env operation w = (Inl e, s, w') \<and>
           retryable (message (toError e)) \<and> failed_attempt env operation w e s w' \<and>
           (s = Refused e \<or> s = Failed e) \<and>
           (length (requestTimestamps (cacheManager w)) < maxRequestsPerMinute \<and>
            records_nothing operation \<longrightarrow>
              s = Failed e \<and>
              length (requestTimestamps (cacheManager w')) < maxRequestsPerMinute)"
proof (cases "canMakeRequest (now env w) w")
  case (Pair ok w1)
  have f: "requestTimestamps (cacheManager w1) =
             filter (\<lambda>x. now env w - x < cooldownPeriod) (requestTimestamps (cacheManager w))"
    using requestTimestamps_canMakeRequest[of "now env w" w] Pair by simp
  have okd: "ok = (length (requestTimestamps (cacheManager w1)) < maxRequestsPerMinute)"
    using fst_canMakeRequest[of "now env w" w] Pair f by simp
  have le: "length (requestTimestamps (cacheManager w1)) \<le> length (requestTimestamps (cacheManager w))"
    using f by simp
  show ?thesis
  proof (cases ok)
    case True
    from H obtain e w2 where o: "operation w1 = (Inl e, w2)" "retryable (message (toError e))"
      by blast
    have "records_nothing operation \<longrightarrow>
            length (requestTimestamps (cacheManager w2)) < maxRequestsPerMinute"
      using o(1) okd True by (auto simp: records_nothing_def dest!: spec[of _ w1])
    then show ?thesis using Pair True o
      by (simp add: attempt_try_def failed_attempt_def)
  next
    case False
    have "\<not> length (requestTimestamps (cacheManager w)) < maxRequestsPerMinute"
      using False okd le by simp
    then show ?thesis using Pair False
      by (cases "getNextAvailableTime (now env w1) w1")
         (simp add: attempt_try_def failed_attempt_def retryable_rateLimitMessage)
  qed
qed

lemma retry_loop_done:
  "\<not> attempt < maxRetries cfg \<Longrightarrow>
     retry_loop env operation cfg attempt delay lastError w = (Inl lastError, [], w)"
  by (subst retry_loop.simps) simp

lemma retry_loop_again:
  assumes "attempt_try env operation w = (Inl e, s, w1)"
    and "retryable (message (toError e))"
    and "attempt < maxRetries cfg"
  shows "retry_loop env operation cfg attempt delay lastError w =
          (if attempt < maxRetries cfg - 1 then
             (case retry_loop env operation cfg (Suc attempt)
                     (min (delay * backoffFactor cfg) (maxDelay cfg)) (toError e) (tick w1) of
                (r, ss, w2) \<Rightarrow> (r, s # Slept delay # ss, w2))
           else
             (case retry_loop env operation cfg (Suc attempt) delay (toError e) w1 of
                (r, ss, w2) \<Rightarrow> (r, s # ss, w2)))"
  using assms by (subst retry_loop.simps) simp

text \<open>
  C6, as the code has it. Let the operation fail with a retryable error whenever it is
  invoked. Then \<^const>\<open>retryWithBackoff\<close> with the default configuration makes exactly
  \<open>maxRetries\<close> attempts. Each of them invokes the operation exactly when
  \<^const>\<open>canMakeRequest\<close> admits it at that moment, and otherwise fails with the rate limit
  error without invoking it. So the operation is invoked exactly \<open>maxRetries\<close> times when
  every attempt is admitted, as it is when fewer than \<^const>\<open>maxRequestsPerMinute\<close> requests
  are recorded at the start and the operation records none. The loop sleeps 2000 and then
  4000 milliseconds between the attempts, which is non-decreasing and within \<open>maxDelay\<close>,
  and it throws the error of the last attempt, which is retryable.
\<close>

theorem retryWithBackoff_exhausted:
  assumes H: "\<forall>w. \<exists>e w'. operation w = (Inl e, w') \<and> retryable (message (toError e))"
  shows "\<exists>e1 s1 w1 e2 s2 w2 e3 s3 w3 ss.
           failed_attempt env operation w e1 s1 w1 \<and>
           failed_attempt env operation (tick w1) e2 s2 w2 \<and>
           failed_attempt env operation (tick w2) e3 s3 w3 \<and>
           ss = [s1, Slept 2000, s2, Slept 4000, s3] \<and>
           retryWithBackoff env operation RETRY_CONFIG w = (Inl (toError e3), ss, w3) \<and>
           retryable (message (toError e3)) \<and>
           invocations ss + refusals ss = maxRetries RETRY_CONFIG \<and>
           (length (requestTimestamps (cacheManager w)) < maxRequestsPerMinute \<and>
            records_nothing operation \<longrightarrow>
              invocations ss = maxRetries RETRY_CONFIG \<and> refusals ss = 0) \<and>
           sleeps ss = [2000, 4000] \<and> sorted (sleeps ss) \<and>
           (\<forall>d \<in> set (sleeps ss). d \<le> maxDelay RETRY_CONFIG)"
proof -
  let ?room = "\<lambda>v. length (requestTimestamps (cacheManager v)) < maxRequestsPerMinute \<and>
                    records_nothing operation"
  from attempt_try_failed[OF H] obtain e1 s1 w1 where
    a1: "attempt_try env operation w = (Inl e1, s1, w1)"
    and r1: "retryable (message (toError e1))"
    and f1: "failed_attempt env operation w e1 s1 w1"
    and k1: "s1 = Refused e1 \<or> s1 = Failed e1"
    and m1: "?room w \<longrightarrow> s1 = Failed e1 \<and> length (requestTimestamps (cacheManager w1)) < maxRequestsPerMinute"
    by blast
  from attempt_try_failed[OF H] obtain e2 s2 w2 where
    a2: "attempt_try env operation (tick w1) = (Inl e2, s2, w2)"
    and r2: "retryable (message (toError e2))"
    and f2: "failed_attempt env operation (tick w1) e2 s2 w2"
    and k2: "s2 = Refused e2 \<or> s2 = Failed e2"
    and m2: "?room (tick w1) \<longrightarrow> s2 = Failed e2 \<and> length (requestTimestamps (cacheManager w2)) < maxRequestsPerMinute"
    by blast
  from attempt_try_failed[OF H] obtain e3 s3 w3 where
    a3: "attempt_try env operation (tick w2) = (Inl e3, s3, w3)"
    and r3: "retryable (message (toError e3))"
    and f3: "failed_attempt env operation (tick w2) e3 s3 w3"
    and k3: "s3 = Refused e3 \<or> s3 = Failed e3"
    and m3: "?room (tick w2) \<longrightarrow> s3 = Failed e3 \<and> length (requestTimestamps (cacheManager w3)) < maxRequestsPerMinute"
    by blast
  let ?ss = "[s1, Slept 2000, s2, Slept 4000, s3]"
  have l3: "retry_loop env operation RETRY_CONFIG (Suc (Suc 0)) 8000 (toError e2) (tick w2)
              = (Inl (toError e3), [s3], w3)"
    using retry_loop_again[OF a3 r3, where cfg=RETRY_CONFIG and attempt="Suc (Suc 0)"
        and delay=8000 and lastError="toError e2"]
    by (simp add: RETRY_CONFIG_def retry_loop_done)
  have l2: "retry_loop env operation RETRY_CONFIG (Suc 0) 4000 (toError e1) (tick w1)
              = (Inl (toError e3), [s2, Slept 4000, s3], w3)"
    using retry_loop_again[OF a2 r2, where cfg=RETRY_CONFIG and attempt="Suc 0"
        and delay=4000 and lastError="toError e1"] l3
    by (simp add: RETRY_CONFIG_def)
  have l1: "retryWithBackoff env operation RETRY_CONFIG w = (Inl (toError e3), ?ss, w3)"
    using retry_loop_again[OF a1 r1, where cfg=RETRY_CONFIG and attempt=0
        and delay=2000 and lastError="Thrown ''null''"] l2
    by (simp add: retryWithBackoff_def RETRY_CONFIG_def)
  have c: "invocations ?ss + refusals ?ss = 3"
    using k1 k2 k3 by (auto simp: invocations_def refusals_def)
  have "?room w \<longrightarrow> s1 = Failed e1 \<and> s2 = Failed e2 \<and> s3 = Failed e3"
    using m1 m2 m3 by simp
  then have adm: "?room w \<longrightarrow> invocations ?ss = 3 \<and> refusals ?ss = 0"
    by (auto simp: invocations_def refusals_def)
  have sl: "sleeps ?ss = [2000, 4000]"
    using k1 k2 k3 by (auto simp: sleeps_def)
  show ?thesis
    apply (rule exI[of _ e1], rule exI[of _ s1], rule exI[of _ w1])
    apply (rule exI[of _ e2], rule exI[of _ s2], rule exI[of _ w2])
    apply (rule exI[of _ e3], rule exI[of _ s3], rule exI[of _ w3])
    apply (rule exI[of _ ?ss])
    using f1 f2 f3 l1 r3 c adm sl
    apply (simp add: RETRY_CONFIG_def)
    done
qed

theorem retryWithBackoff_exhausted_witness:
  "invocations (fst (snd (retryWithBackoff offline
       (\<lambda>w. (Inl (Err ''quota exceeded'') :: thrown + unit, w)) RETRY_CONFIG (page_load Absent))))
     = 3 \<and>
   sleeps (fst (snd (retryWithBackoff offline
       (\<lambda>w. (Inl (Err ''quota exceeded'') :: thrown + unit, w)) RETRY_CONFIG (page_load Absent))))
     = [2000, 4000] \<and>
   (\<exists>e. fst (retryWithBackoff offline
            (\<lambda>w. (Inl (Err ''quota exceeded'') :: thrown + unit, w)) RETRY_CONFIG
            (page_load Absent)) = Inl e \<and>
        retryable (message e))"
proof -
  let ?op = "\<lambda>w. (Inl (Err ''quota exceeded'') :: thrown + unit, w)"
  have H: "\<forall>w. \<exists>e w'. ?op w = (Inl e, w') \<and> retryable (message (toError e))"
    by (simp add: retryable_def)
  have room: "length (requestTimestamps (cacheManager (page_load Absent))) < maxRequestsPerMinute \<and>
              records_nothing ?op"
    by (simp add: page_load_def new_CacheManager_def maxRequestsPerMinute_def records_nothing_def)
  from retryWithBackoff_exhausted [OF H, of offline "page_load Absent"] room
  obtain e ss w' where
    "retryWithBackoff offline ?op RETRY_CONFIG (page_load Absent) = (Inl (toError e), ss, w')"
    and "retryable (message (toError e))"
    and "invocations ss = maxRetries RETRY_CONFIG" and "sleeps ss = [2000, 4000]"
    by blast
  then show ?thesis
    by (auto simp: RETRY_CONFIG_def)
qed

text \<open>
  As C6 is worded it fails. With ten requests recorded in the last ten seconds, an operation
  that always fails with a quota error is not invoked at all in the three attempts. With ten
  requests recorded of which the oldest leaves the window during the first sleep, the first
  attempt is refused and the operation is invoked twice.
\<close>

theorem retryWithBackoff_refused_counterexample:
  "retryable (message (toError (Err ''quota exceeded''))) \<and>
   invocations (fst (snd (retryWithBackoff offline
       (\<lambda>w. (Inl (Err ''quota exceeded'') :: thrown + unit, w)) RETRY_CONFIG
       (recordRequests [51000, 52000, 53000, 54000, 55000, 56000, 57000, 58000, 59000, 60000]
          ((page_load Absent)\<lparr>time := 12\<rparr>))))) = 0 \<and>
   fst (snd (retryWithBackoff offline
       (\<lambda>w. (Inl (Err ''quota exceeded'') :: thrown + unit, w)) RETRY_CONFIG
       (recordRequests [5000, 52000, 53000, 54000, 55000, 56000, 57000, 58000, 59000, 60000]
          ((page_load Absent)\<lparr>time := 12\<rparr>))))
     = [Refused (Err ''Rate limit reached. Please wait 5 seconds.''), Slept 2000,
        Failed (Err ''quota exceeded''), Slept 4000, Failed (Err ''quota exceeded'')]"
  by code_simp

section \<open>What the calls keep\<close>

lemma ui_tick [simp]: "ui (tick w) = ui w"
  by (simp add: tick_def)

lemma ui_canMakeRequest [simp]: "ui (snd (canMakeRequest t w)) = ui w"
  by (simp add: canMakeRequest_def set_requestTimestamps_def Let_def)

lemma ui_recordRequest [simp]: "ui (recordRequest t w) = ui w"
  by (simp add: recordRequest_def set_requestTimestamps_def)

lemma ui_getNextAvailableTime [simp]: "ui (snd (getNextAvailableTime t w)) = ui w"
proof (cases "canMakeRequest t w")
  case (Pair ok w1)
  then have "ui w1 = ui w" using ui_canMakeRequest[of t w] by simp
  then show ?thesis using Pair
    by (simp add: getNextAvailableTime_def split: bool.splits list.splits)
qed

lemma ui_set_cache [simp]: "ui (snd (set_cache env t imageUrl prompt d w)) = ui w"
  by (simp add: set_cache_def Let_def saveToLocalStorage_def set_cache_map_def
      split: sum.splits list.splits)

lemma ui_get [simp]: "ui (snd (get env t imageUrl prompt w)) = ui w"
  by (simp add: get_def Let_def set_cache_map_def split: sum.splits option.splits)

text \<open>What an attempt of the retry loop does to the page, for a property of the page that
  the operation keeps and that depends on the React state only.\<close>

lemma attempt_try_keeps:
  assumes op: "\<And>w. I (ui (snd (operation w))) = I (ui w)"
  shows "I (ui (snd (snd (attempt_try env operation w)))) = I (ui w)"
proof (cases "canMakeRequest (now env w) w")
  case (Pair ok w1)
  have u1: "ui w1 = ui w" using ui_canMakeRequest[of "now env w" w] Pair by simp
  show ?thesis
  proof (cases ok)
    case True
    obtain r w2 where o: "operation w1 = (r, w2)" by (cases "operation w1")
    have "I (ui w2) = I (ui w1)" using op[of w1] o by simp
    then show ?thesis using Pair True o u1
      by (cases r) (simp_all add: attempt_try_def)
  next
    case False
    obtain wt w2 where g: "getNextAvailableTime (now env w1) w1 = (wt, w2)"
      by (cases "getNextAvailableTime (now env w1) w1")
    have "ui w2 = ui w1" using ui_getNextAvailableTime[of "now env w1" w1] g by simp
    then show ?thesis using Pair False g u1 by (simp add: attempt_try_def)
  qed
qed

lemma retry_loop_unfold:
  assumes "attempt < maxRetries cfg" and "attempt_try env operation w = (r, s, w1)"
  shows "retry_loop env operation cfg attempt delay lastError w =
    (case r of
       Inr result \<Rightarrow> (Inr result, [s], w1)
     | Inl e \<Rightarrow>
         if \<not> retryable (message (toError e)) then (Inl (toError e), [s], w1)
         else if attempt < maxRetries cfg - 1 then
           (case retry_loop env operation cfg (Suc attempt)
                   (min (delay * backoffFactor cfg) (maxDelay cfg)) (toError e) (tick w1) of
              (r, ss, w2) \<Rightarrow> (r, s # Slept delay # ss, w2))
         else
           (case retry_loop env operation cfg (Suc attempt) delay (toError e) w1 of
              (r, ss, w2) \<Rightarrow> (r, s # ss, w2)))"
  using assms by (subst retry_loop.simps) (simp split: sum.splits)

lemma retry_loop_keeps:
  assumes op: "\<And>w. I (ui (snd (operation w))) = I (ui w)"
  shows "I (ui (snd (snd (retry_loop env operation cfg attempt delay lastError w)))) = I (ui w)"
proof (induction "maxRetries cfg - attempt" arbitrary: attempt delay lastError w)
  case 0
  then show ?case by (simp add: retry_loop_done)
next
  case (Suc n)
  then have lt: "attempt < maxRetries cfg" and n: "n = maxRetries cfg - Suc attempt" by auto
  obtain r s w1 where a: "attempt_try env operation w = (r, s, w1)"
    by (cases "attempt_try env operation w") auto
  have k: "I (ui w1) = I (ui w)"
    using attempt_try_keeps[of I operation env w, OF op] a by simp
  have ih1: "\<And>d l. I (ui (snd (snd (retry_loop env operation cfg (Suc attempt) d l (tick w1)))))
               = I (ui w)"
    using Suc.hyps(1)[OF n] k by simp
  have ih2: "\<And>d l. I (ui (snd (snd (retry_loop env operation cfg (Suc attempt) d l w1))))
               = I (ui w)"
    using Suc.hyps(1)[OF n] k by simp
  show ?case
    using k ih1 ih2
    by (simp add: retry_loop_unfold[OF lt a] split: sum.splits prod.splits)
      (metis snd_conv)+
qed

lemma attempt_try_returns:
  assumes op: "\<And>w r w'. operation w = (Inr r, w') \<Longrightarrow> Q r w'"
    and rec: "\<And>t r w. Q r w \<Longrightarrow> Q r (recordRequest t w)"
    and a: "attempt_try env operation w = (Inr r, s, w1)"
  shows "Q r w1"
proof (cases "canMakeRequest (now env w) w")
  case (Pair ok w0)
  show ?thesis
  proof (cases ok)
    case False
    then show ?thesis using a Pair
      by (simp add: attempt_try_def split: prod.splits)
  next
    case True
    obtain x w2 where o: "operation w0 = (x, w2)" by (cases "operation w0")
    show ?thesis
    proof (cases x)
      case (Inl e)
      then show ?thesis using a Pair True o by (simp add: attempt_try_def)
    next
      case (Inr y)
      then have "Q y w2" using op o by simp
      then show ?thesis using a Pair True o Inr rec by (auto simp: attempt_try_def)
    qed
  qed
qed

lemma retry_loop_returns:
  assumes op: "\<And>w r w'. operation w = (Inr r, w') \<Longrightarrow> Q r w'"
    and rec: "\<And>t r w. Q r w \<Longrightarrow> Q r (recordRequest t w)"
  shows "retry_loop env operation cfg attempt delay lastError w = (Inr r, ss, w') \<Longrightarrow> Q r w'"
proof (induction "maxRetries cfg - attempt" arbitrary: attempt delay lastError w ss)
  case 0
  then show ?case by (simp add: retry_loop_done)
next
  case (Suc n)
  then have lt: "attempt < maxRetries cfg" and n: "n = maxRetries cfg - Suc attempt" by auto
  obtain x s w1 where a: "attempt_try env operation w = (x, s, w1)"
    by (cases "attempt_try env operation w") auto
  show ?case
  proof (cases x)
    case (Inr y)
    then have "Q y w1" using attempt_try_returns[of operation Q env w y s w1] op rec a by blast
    then show ?thesis using Suc.prems Inr by (simp add: retry_loop_unfold[OF lt a])
  next
    case (Inl e)
    then show ?thesis
      using Suc.prems Suc.hyps(1)[OF n]
      by (simp add: retry_loop_unfold[OF lt a] split: if_splits prod.splits)
  qed
qed

lemma set_cache_returns:
  assumes "set_cache env t imageUrl prompt d w = (Inr x, w')"
  shows "\<exists>h. generateImageHash env imageUrl = Inr h \<and>
           map_of (cache (cacheManager w')) (cacheKey h prompt)
             = Some \<lparr>data = d, timestamp = t, imageHash = h\<rparr>"
proof (cases "generateImageHash env imageUrl")
  case (Inl e)
  then show ?thesis using assms by (simp add: set_cache_def)
next
  case (Inr h)
  then show ?thesis using set_cache_stores[OF Inr, of t prompt d w] assms by auto
qed

lemma ui_set_ui [simp]: "ui (set_ui f w) = f (ui w)"
  by (simp add: set_ui_def)

lemma cacheManager_set_ui [simp]: "cacheManager (set_ui f w) = cacheManager w"
  by (simp add: set_ui_def)

lemma requests_set_ui [simp]: "requests (set_ui f w) = requests w"
  by (simp add: set_ui_def)

lemma cache_recordRequest [simp]:
  "cache (cacheManager (recordRequest t w)) = cache (cacheManager w)"
  by (simp add: recordRequest_def set_requestTimestamps_def)

lemma analysisOperation_returns:
  assumes "analysisOperation env imageUrl imageBase64 prompt w = (Inr r, w')"
  shows "retryCount (ui w') = 0 \<and>
         (\<exists>h e. generateImageHash env imageUrl = Inr h \<and>
                map_of (cache (cacheManager w')) (cacheKey h prompt) = Some e \<and> data e = r)"
  using assms
  apply (simp add: analysisOperation_def Let_def
      split: prod.splits bool.splits fetched.splits if_splits option.splits sum.splits)
  apply (auto dest!: set_cache_returns)
  done

lemma analysisOperation_core:
  "core (ui (snd (analysisOperation env imageUrl imageBase64 prompt w))) = core (ui w)"
proof (cases "canMakeRequest (now env w) w")
  case (Pair ok w1)
  have u1: "ui w1 = ui w" using ui_canMakeRequest[of "now env w" w] Pair by simp
  show ?thesis
  proof (cases ok)
    case False
    obtain wt w2 where g: "getNextAvailableTime (now env w1) w1 = (wt, w2)"
      by (cases "getNextAvailableTime (now env w1) w1")
    have "ui w2 = ui w1" using ui_getNextAvailableTime[of "now env w1" w1] g by simp
    then show ?thesis using Pair False g u1 by (simp add: analysisOperation_def core_def)
  next
    case True
    have s: "\<And>t r w0. ui (snd (set_cache env t imageUrl prompt r w0)) = ui w0" by simp
    show ?thesis using Pair True u1
      apply (simp add: analysisOperation_def Let_def core_def
          split: fetched.splits option.splits prod.splits sum.splits)
      apply (auto simp: tick_def dest!: arg_cong[where f="\<lambda>p. ui (snd p)"])
      done
  qed
qed

lemma callGeminiVision_core:
  "core (ui (snd (callGeminiVision env uploaded imageBase64 prompt w))) = core (ui w)"
proof -
  have g: "ui (snd (get env (now env (tick w)) uploaded prompt (tick w))) = ui w"
    by simp
  have l: "\<And>w0. core (ui (snd (snd (retryWithBackoff env
              (analysisOperation env uploaded imageBase64 prompt) RETRY_CONFIG w0)))) = core (ui w0)"
    unfolding retryWithBackoff_def
    by (rule retry_loop_keeps) (rule analysisOperation_core)
  show ?thesis
  proof (cases "get env (now env (tick w)) uploaded prompt (tick w)")
    case (Pair x w1)
    then have u1: "ui w1 = ui w" using g by simp
    obtain r ss w2 where rw: "retryWithBackoff env
              (analysisOperation env uploaded imageBase64 prompt) RETRY_CONFIG
              (set_ui (\<lambda>u. u\<lparr>cacheStatus := Some ''Cache miss - calling API''\<rparr>) w1) = (r, ss, w2)"
      by (metis prod_cases3)
    have m: "core (ui w2) = core (ui w)"
      using l[of "set_ui (\<lambda>u. u\<lparr>cacheStatus := Some ''Cache miss - calling API''\<rparr>) w1"] u1 rw
      by (simp add: core_def)
    show ?thesis using Pair u1 m rw
      by (simp add: callGeminiVision_def core_def split: sum.splits option.splits)
  qed
qed

lemma callGeminiVision_returns:
  assumes "callGeminiVision env uploaded imageBase64 prompt w = (Inr a, w')"
  shows "truthy (apiKey env) \<and> (retryCount (ui w) = 0 \<longrightarrow> retryCount (ui w') = 0)"
proof -
  have l: "\<And>w0 r ss w2. retryWithBackoff env (analysisOperation env uploaded imageBase64 prompt)
              RETRY_CONFIG w0 = (Inr r, ss, w2) \<Longrightarrow> retryCount (ui w2) = 0"
    unfolding retryWithBackoff_def
    by (erule retry_loop_returns[where Q="\<lambda>r w. retryCount (ui w) = 0", rotated 2])
       (simp_all add: analysisOperation_returns)
  have g: "ui (snd (get env (now env (tick w)) uploaded prompt (tick w))) = ui w"
    by simp
  show ?thesis
  proof (cases "get env (now env (tick w)) uploaded prompt (tick w)")
    case (Pair x w1)
    then have u1: "ui w1 = ui w" using g by simp
    show ?thesis using assms Pair u1
      by (auto simp: callGeminiVision_def split: sum.splits option.splits prod.splits if_splits
          dest: l)
  qed
qed

lemma generateImageDescription_ui [simp]:
  "ui (snd (generateImageDescription env analysisText w)) = ui w"
  by (simp add: generateImageDescription_def split: fetched.splits option.splits)

lemma generateRepairedImageWithGemini_ui [simp]:
  "ui (snd (generateRepairedImageWithGemini env description w)) = ui w"
proof (cases "generateImageDescription env description w")
  case (Pair x w1)
  then have "ui w1 = ui w" using generateImageDescription_ui[of env description w] by simp
  then show ?thesis using Pair
    by (simp add: generateRepairedImageWithGemini_def
        split: sum.splits fetched.splits generated.splits option.splits)
qed

text \<open>The try block: it keeps the loading flag and the error; when it returns, the report
  is set, and the retry count is 0 if it was 0 at the start.\<close>

lemma generateReport_try_facts:
  assumes t: "generateReport_try env uploaded description w = (x, w')"
  shows "isLoading (ui w') = isLoading (ui w) \<and> error (ui w') = error (ui w) \<and>
         uploadedImage (ui w') = uploadedImage (ui w) \<and>
         (case x of
            Inr u \<Rightarrow> reportData (ui w') \<noteq> None \<and> (retryCount (ui w) = 0 \<longrightarrow> retryCount (ui w') = 0)
          | Inl e \<Rightarrow> reportData (ui w') = reportData (ui w))"
proof (cases "convertImageToBase64 env uploaded")
  case (Inl e)
  then show ?thesis using t by (auto simp: generateReport_try_def)
next
  case (Inr b)
  let ?w0 = "set_ui (\<lambda>u. u\<lparr>processingStep := ''Analyzing infrastructure with Gemini AI...''\<rparr>) (tick w)"
  obtain y w1 where c: "callGeminiVision env uploaded b (fullPrompt description) ?w0 = (y, w1)"
    by (cases "callGeminiVision env uploaded b (fullPrompt description) ?w0")
  have k1: "core (ui w1) = core (ui ?w0)"
    using callGeminiVision_core[of env uploaded b "fullPrompt description" ?w0] c by simp
  show ?thesis
  proof (cases y)
    case (Inl e)
    then show ?thesis using t Inr c k1 by (auto simp: generateReport_try_def core_def)
  next
    case a: (Inr a)
    have r1: "retryCount (ui w) = 0 \<longrightarrow> retryCount (ui w1) = 0"
      using callGeminiVision_returns[of env uploaded b "fullPrompt description" ?w0 a w1] c a
      by simp
    let ?w2 = "set_ui (\<lambda>u. u\<lparr>processingStep :=
                 ''Generating completed infrastructure visualization...''\<rparr>) w1"
    obtain z w3 where g: "generateRepairedImageWithGemini env a ?w2 = (z, w3)"
      by (cases "generateRepairedImageWithGemini env a ?w2")
    have u3: "ui w3 = ui ?w2" using generateRepairedImageWithGemini_ui[of env a ?w2] g by simp
    show ?thesis using t Inr c a g k1 r1 u3
      by (cases z) (auto simp: generateReport_try_def core_def)
  qed
qed

section \<open>The loading flag\<close>

lemma handleGenerateReport_started:
  assumes v: "uploadedImage r = Some uploaded" "uploaded \<noteq> []" "trim (userDescription r) \<noteq> []"
    and c: "retryCount r < maxRetries RETRY_CONFIG"
  shows "isLoading (ui (handleGenerateReport env r w)) \<and>
         (reportData (ui w) = None \<longrightarrow> reportData (ui (handleGenerateReport env r w)) \<noteq> None \<longrightarrow>
            retryCount (ui (handleGenerateReport env r w)) = 0 \<and>
            error (ui (handleGenerateReport env r w)) = None)"
proof -
  obtain x w1 where t: "generateReport_try env uploaded (userDescription r) (begin_run w) = (x, w1)"
    by (cases "generateReport_try env uploaded (userDescription r) (begin_run w)")
  note f = generateReport_try_facts[OF t]
  show ?thesis
  proof (cases x)
    case (Inr u)
    then show ?thesis using v c t f
      by (simp add: handleGenerateReport_def Let_def begin_run_def)
  next
    case (Inl e)
    then show ?thesis using v c t f
      by (simp add: handleGenerateReport_def Let_def generateReport_catch_def begin_run_def)
  qed
qed

lemma handleGenerateReport_invalid:
  assumes "uploadedImage r = None \<or> uploadedImage r = Some [] \<or> trim (userDescription r) = []"
  shows "\<exists>m. handleGenerateReport env r w = set_ui (\<lambda>u. u\<lparr>error := Some m\<rparr>) w"
  using assms by (auto simp: handleGenerateReport_def split: option.splits)

lemma settled_handle: "settled w \<Longrightarrow> settled (handle ev w)"
proof (cases ev)
  case (ImageUpload x)
  assume "settled w" then show ?thesis using ImageUpload
    by (auto simp: settled_def handleImageUpload_def)
next
  case (DescriptionChange d)
  assume "settled w" then show ?thesis using DescriptionChange by (auto simp: settled_def)
next
  case (GenerateClick env)
  assume s: "settled w"
  show ?thesis
  proof (cases "canGenerateReport (ui w)")
    case False
    then show ?thesis using s GenerateClick by simp
  next
    case True
    then have rc: "retryCount (ui w) < maxRetries RETRY_CONFIG"
      using s by (auto simp: settled_def canGenerateReport_def RETRY_CONFIG_def)
    from True obtain uploaded where up: "uploadedImage (ui w) = Some uploaded" "uploaded \<noteq> []"
      by (cases "uploadedImage (ui w)") (auto simp: canGenerateReport_def)
    show ?thesis
    proof (cases "trim (userDescription (ui w)) = []")
      case True
      then obtain m where "handleGenerateReport env (ui w) w = set_ui (\<lambda>u. u\<lparr>error := Some m\<rparr>) w"
        using handleGenerateReport_invalid[of "ui w" env w] by blast
      then show ?thesis using s GenerateClick \<open>canGenerateReport (ui w)\<close>
        by (simp add: settled_def)
    next
      case False
      then show ?thesis
        using handleGenerateReport_started[OF up False rc, of env w] GenerateClick True
        by (simp add: settled_def)
    qed
  qed
qed

lemma settled_fold: "settled w \<Longrightarrow> settled (fold handle evs w)"
  by (induction evs arbitrary: w) (simp_all add: settled_handle)

lemma isLoading_handle: "isLoading (ui w) \<Longrightarrow> handle ev w = w \<or> isLoading (ui (handle ev w))"
  by (cases ev) (auto simp: handleImageUpload_def canGenerateReport_def)

lemma isLoading_fold: "isLoading (ui w) \<Longrightarrow> isLoading (ui (fold handle evs w))"
proof (induction evs arbitrary: w)
  case Nil
  then show ?case by simp
next
  case (Cons ev evs)
  then show ?case using isLoading_handle[of w ev] by auto
qed

text \<open>
  C9. Take any state the page can reach from a newly mounted component (whatever the cache
  manager, the stored item and the clock are then) by uploads, edits of the description and
  presses of the button, in which the button is enabled, and press it. If that run sets the
  report, then at its end \<^verbatim>\<open>retryCount\<close> is 0 and no error is shown, and in every later state
  of the page \<^verbatim>\<open>isLoading\<close> is still true and the button disabled: the reset in the
  \<^verbatim>\<open>finally\<close> block asks for a captured \<^verbatim>\<open>retryCount\<close> of at least \<open>maxRetries\<close>, and no other
  code writes the flag.
\<close>

theorem successful_run_stays_loading:
  assumes "ui w0 = initial_ui" and "w = fold handle evs w0" and "canGenerateReport (ui w)"
    and "w' = handle (GenerateClick env) w" and "reportData (ui w') \<noteq> None"
  shows "retryCount (ui w') = 0 \<and> error (ui w') = None \<and>
         (\<forall>later. isLoading (ui (fold handle later w')) \<and>
                  \<not> canGenerateReport (ui (fold handle later w')))"
proof -
  have "settled w0" using assms(1) by (simp add: settled_def initial_ui_def)
  then have s: "settled w" using assms(2) settled_fold by simp
  then have rc: "retryCount (ui w) < maxRetries RETRY_CONFIG" and nr: "reportData (ui w) = None"
    using assms(3) by (auto simp: settled_def canGenerateReport_def RETRY_CONFIG_def)
  from assms(3) obtain uploaded where up: "uploadedImage (ui w) = Some uploaded" "uploaded \<noteq> []"
    by (cases "uploadedImage (ui w)") (auto simp: canGenerateReport_def)
  have w': "w' = handleGenerateReport env (ui w) w" using assms(3,4) by simp
  have d: "trim (userDescription (ui w)) \<noteq> []"
  proof
    assume "trim (userDescription (ui w)) = []"
    then obtain m where "w' = set_ui (\<lambda>u. u\<lparr>error := Some m\<rparr>) w"
      using handleGenerateReport_invalid[of "ui w" env w] w' by blast
    then show False using nr assms(5) by simp
  qed
  note st = handleGenerateReport_started[OF up d rc, of env w]
  have l: "isLoading (ui w')" using st w' by simp
  have "retryCount (ui w') = 0 \<and> error (ui w') = None" using st w' nr assms(5) by simp
  moreover have "\<And>later. isLoading (ui (fold handle later w'))"
    using l by (rule isLoading_fold)
  ultimately show ?thesis by (simp add: canGenerateReport_def)
qed

theorem successful_run_stays_loading_witness:
  "retryCount (ui (handle (GenerateClick analysis_succeeds) (prepared Absent))) = 0 \<and>
   error (ui (handle (GenerateClick analysis_succeeds) (prepared Absent))) = None \<and>
   (\<forall>later.
      isLoading (ui (fold handle later (handle (GenerateClick analysis_succeeds) (prepared Absent)))) \<and>
      \<not> canGenerateReport
          (ui (fold handle later (handle (GenerateClick analysis_succeeds) (prepared Absent)))))"
proof -
  have i: "ui (page_load Absent) = initial_ui"
    by (simp add: page_load_def)
  have p: "prepared Absent =
      fold handle [ImageUpload ''data:image/png;base64,iVBORw0KGgo='',
                   DescriptionChange ''crack in beam''] (page_load Absent)"
    by (simp add: prepared_def session_def)
  have e: "canGenerateReport (ui (prepared Absent))"
    by code_simp
  have r: "reportData (ui (handle (GenerateClick analysis_succeeds) (prepared Absent))) \<noteq> None"
    by code_simp
  show ?thesis
    using successful_run_stays_loading [OF i p e refl r] .
qed

section \<open>Three answers with the status 429\<close>

text \<open>
  C2. A fresh page, an image and a description given, the key configured, the cache empty,
  and the analysis endpoint answering each request with the status 429 and an error body.
  The run sends exactly three requests and counts three retries in the state, but the
  handler compares the \<^verbatim>\<open>retryCount\<close> it captured, which is 0: the message shown is the one
  of the branch for attempts that remain, and \<^verbatim>\<open>isLoading\<close> stays true. With the count 3 the
  same error gives the message that states that the maximum of retry attempts is reached.
\<close>

theorem three_429_run:
  "error (ui (handle (GenerateClick quota_exhausted) (prepared Absent)))
     = Some ''Retrying automatically (Attempt 1/3)...'' \<and>
   requests (handle (GenerateClick quota_exhausted) (prepared Absent)) = 3 \<and>
   retryCount (ui (handle (GenerateClick quota_exhausted) (prepared Absent))) = 3 \<and>
   isLoading (ui (handle (GenerateClick quota_exhausted) (prepared Absent))) \<and>
   retryCount (ui (prepared Absent)) = 0 \<and>
   str_includes (errorMessage 3 (Err ''API quota exceeded. Retrying automatically...''))
     ''Maximum retry attempts reached''"
  by code_simp

section \<open>The text that is parsed\<close>

lemma two_le_length:
  assumes "xs \<noteq> []" and "hd xs \<noteq> last xs"
  shows "2 \<le> length xs"
proof (cases xs)
  case Nil
  then show ?thesis using assms by simp
next
  case (Cons a ys)
  then show ?thesis using assms by (cases ys) auto
qed

lemma dropWhile_rev_last:
  "c \<in> set t \<Longrightarrow>
     \<exists>post. t = rev (dropWhile (\<lambda>x. x \<noteq> c) (rev t)) @ post \<and> c \<notin> set post \<and>
            rev (dropWhile (\<lambda>x. x \<noteq> c) (rev t)) \<noteq> [] \<and>
            last (rev (dropWhile (\<lambda>x. x \<noteq> c) (rev t))) = c"
proof -
  assume c: "c \<in> set t"
  let ?d = "dropWhile (\<lambda>x. x \<noteq> c) (rev t)"
  let ?k = "takeWhile (\<lambda>x. x \<noteq> c) (rev t)"
  have r: "rev t = ?k @ ?d" by simp
  have ne: "?d \<noteq> []" using c by (simp add: dropWhile_eq_Nil_conv)
  then have h: "hd ?d = c" using hd_dropWhile[of "\<lambda>x. x \<noteq> c" "rev t"] by simp
  have "t = rev ?d @ rev ?k" using r by (metis rev_append rev_rev_ident)
  moreover have "c \<notin> set (rev ?k)"
    using set_takeWhileD[of c "\<lambda>x. x \<noteq> c" "rev t"] by auto
  moreover have "last (rev ?d) = c" using ne h by (simp add: last_rev)
  ultimately show ?thesis using ne by auto
qed

lemma jsonMatch_Some:
  assumes "jsonMatch s = Some m"
  shows "\<exists>pre post. s = pre @ m @ post \<and> CHR ''{'' \<notin> set pre \<and> CHR ''}'' \<notin> set post \<and>
           hd m = CHR ''{'' \<and> last m = CHR ''}'' \<and> 2 \<le> length m"
proof -
  let ?t = "dropWhile (\<lambda>c. c \<noteq> CHR ''{'') s"
  let ?pre = "takeWhile (\<lambda>c. c \<noteq> CHR ''{'') s"
  from assms have c: "CHR ''}'' \<in> set ?t"
    and m: "m = rev (dropWhile (\<lambda>c. c \<noteq> CHR ''}'') (rev ?t))"
    by (auto simp: jsonMatch_def Let_def split: if_splits)
  from dropWhile_rev_last[OF c] m obtain post where
    p: "?t = m @ post" "CHR ''}'' \<notin> set post" "m \<noteq> []" "last m = CHR ''}''"
    by auto
  have tne: "?t \<noteq> []" using c by (metis empty_iff list.set(1))
  then have "hd ?t = CHR ''{''" using hd_dropWhile[of "\<lambda>c. c \<noteq> CHR ''{''" s] by simp
  then have hm: "hd m = CHR ''{''" using p(1,3) by (metis hd_append2)
  have "2 \<le> length m" using two_le_length[OF p(3)] hm p(4) by simp
  moreover have "s = ?pre @ m @ post" using p(1) by (metis takeWhile_dropWhile_id)
  moreover have "CHR ''{'' \<notin> set ?pre" using set_takeWhileD[of "CHR ''{''" _ s] by auto
  ultimately show ?thesis using p(2,4) hm by blast
qed

lemma jsonMatch_intro:
  assumes "s = pre @ m @ post" "CHR ''{'' \<notin> set pre" "CHR ''}'' \<notin> set post"
    "hd m = CHR ''{''" "last m = CHR ''}''" "2 \<le> length m"
  shows "jsonMatch s = Some m"
proof -
  from assms(6) have mne: "m \<noteq> []" by auto
  then obtain x xs where mx: "m = x # xs" by (cases m) auto
  then have x: "x = CHR ''{''" using assms(4) by simp
  have "dropWhile (\<lambda>c. c \<noteq> CHR ''{'') (pre @ (m @ post)) =
          dropWhile (\<lambda>c. c \<noteq> CHR ''{'') (m @ post)"
    using assms(2) by (intro dropWhile_append2) auto
  then have d: "dropWhile (\<lambda>c. c \<noteq> CHR ''{'') s = m @ post"
    using assms(1) mx x by simp
  have l: "CHR ''}'' \<in> set m" using mne assms(5) last_in_set by metis
  obtain ys where my: "m = ys @ [CHR ''}'']" using mne assms(5) by (metis append_butlast_last_id)
  have "dropWhile (\<lambda>c. c \<noteq> CHR ''}'') (rev post @ rev m) =
          dropWhile (\<lambda>c. c \<noteq> CHR ''}'') (rev m)"
    using assms(3) by (intro dropWhile_append2) auto
  then have "dropWhile (\<lambda>c. c \<noteq> CHR ''}'') (rev (m @ post)) = rev m"
    using my by simp
  then show ?thesis using d l by (simp add: jsonMatch_def Let_def)
qed

lemma scan_block_prefix:
  "scan_block d t = Some b \<Longrightarrow> \<exists>rest. t = b @ rest \<and> b \<noteq> [] \<and> last b = CHR ''}''"
proof (induction d t arbitrary: b rule: scan_block.induct)
  case (1 d)
  then show ?case by simp
next
  case (2 d c cs)
  show ?case
  proof (cases "c = CHR ''{''")
    case True
    with 2 obtain b' where b': "scan_block (Suc d) cs = Some b'" "b = c # b'" by auto
    with 2(1)[OF True b'(1)] show ?thesis by auto
  next
    case False
    show ?thesis
    proof (cases "c = CHR ''}''")
      case c: True
      show ?thesis
      proof (cases "d \<le> 1")
        case True
        then show ?thesis using 2(4) False c by auto
      next
        case d: False
        with 2(4) False c obtain b' where b': "scan_block (d - 1) cs = Some b'" "b = c # b'" by auto
        with 2(2)[OF False c d b'(1)] show ?thesis by auto
      qed
    next
      case nc: False
      with 2(4) False obtain b' where b': "scan_block d cs = Some b'" "b = c # b'" by auto
      with 2(3)[OF False nc b'(1)] show ?thesis by auto
    qed
  qed
qed

text \<open>
  C3, as the code has it. The text handed to \<^verbatim>\<open>JSON.parse\<close> is the one that starts at the
  first opening brace of the response and ends at its last closing brace, when there is a
  closing brace after the first opening brace; it is the first balanced block when no closing
  brace follows that block. The parsed object is the result when \<^verbatim>\<open>JSON.parse\<close> accepts the
  text, the fallback otherwise.
\<close>

theorem jsonMatch_span:
  "(jsonMatch s = Some m \<longleftrightarrow>
      (\<exists>pre post. s = pre @ m @ post \<and> CHR ''{'' \<notin> set pre \<and> CHR ''}'' \<notin> set post \<and>
         hd m = CHR ''{'' \<and> last m = CHR ''}'' \<and> 2 \<le> length m)) \<and>
   (spec_first_balanced_block s = Some b \<and>
    CHR ''}'' \<notin> set (drop (length b) (dropWhile (\<lambda>c. c \<noteq> CHR ''{'') s))
      \<longrightarrow> jsonMatch s = Some b) \<and>
   parseAnalysis env s =
     (case jsonMatch s of
        Some m \<Rightarrow> (case JSON_parse env m of Some parsed \<Rightarrow> parsed | None \<Rightarrow> fallbackResponse s)
      | None \<Rightarrow> fallbackResponse s)"
proof (intro conjI impI)
  show "jsonMatch s = Some m \<longleftrightarrow>
      (\<exists>pre post. s = pre @ m @ post \<and> CHR ''{'' \<notin> set pre \<and> CHR ''}'' \<notin> set post \<and>
         hd m = CHR ''{'' \<and> last m = CHR ''}'' \<and> 2 \<le> length m)"
    using jsonMatch_Some jsonMatch_intro by blast
next
  let ?t = "dropWhile (\<lambda>c. c \<noteq> CHR ''{'') s"
  assume a: "spec_first_balanced_block s = Some b \<and> CHR ''}'' \<notin> set (drop (length b) ?t)"
  then have "scan_block 0 ?t = Some b" by (simp add: spec_first_balanced_block_def)
  from scan_block_prefix[OF this] obtain rest where
    r: "?t = b @ rest" "b \<noteq> []" "last b = CHR ''}''" by blast
  have s: "s = takeWhile (\<lambda>c. c \<noteq> CHR ''{'') s @ b @ rest"
    using r(1) by (metis takeWhile_dropWhile_id)
  have nr: "CHR ''}'' \<notin> set rest" using a r(1) by simp
  have "?t \<noteq> []" using r(1,2) by (metis append_is_Nil_conv)
  then have "hd ?t = CHR ''{''" using hd_dropWhile[of "\<lambda>c. c \<noteq> CHR ''{''" s] by simp
  then have hb: "hd b = CHR ''{''" using r(1,2) by (metis hd_append2)
  have "2 \<le> length b" using two_le_length[OF r(2)] hb r(3) by simp
  moreover have "CHR ''{'' \<notin> set (takeWhile (\<lambda>c. c \<noteq> CHR ''{'') s)"
    using set_takeWhileD[of "CHR ''{''" _ s] by auto
  ultimately show "jsonMatch s = Some b"
    using jsonMatch_intro[OF s _ nr hb r(3)] by simp
next
  show "parseAnalysis env s =
     (case jsonMatch s of
        Some m \<Rightarrow> (case JSON_parse env m of Some parsed \<Rightarrow> parsed | None \<Rightarrow> fallbackResponse s)
      | None \<Rightarrow> fallbackResponse s)"
    by (simp add: parseAnalysis_def)
qed

theorem jsonMatch_span_witness:
  "spec_first_balanced_block ''Plan: {x} follows'' = Some ''{x}'' \<and>
   jsonMatch ''Plan: {x} follows'' = Some ''{x}'' \<and>
   parseAnalysis offline ''Plan: {x} follows'' = fallbackResponse ''Plan: {x} follows''"
proof -
  have b: "spec_first_balanced_block ''Plan: {x} follows'' = Some ''{x}''"
    by code_simp
  have n: "CHR ''}'' \<notin> set (drop (length ''{x}'')
             (dropWhile (\<lambda>c. c \<noteq> CHR ''{'') ''Plan: {x} follows''))"
    by code_simp
  have j: "jsonMatch ''Plan: {x} follows'' = Some ''{x}''"
    using jsonMatch_span [of "''Plan: {x} follows''" "''{x}''" "''{x}''" offline] b n by blast
  have "JSON_parse offline ''{x}'' = None"
    by (simp add: offline_def scenario_def)
  then show ?thesis
    using jsonMatch_span [of "''Plan: {x} follows''" "''{x}''" "''{x}''" offline] b j by simp
qed

text \<open>
  As C3 is worded it fails: of a response with two blocks, the first balanced block is the
  first of them, and the text that is parsed runs from the first block to the end of the
  second.
\<close>

theorem jsonMatch_not_first_block_counterexample:
  "spec_first_balanced_block ''Plan: {} and {}'' = Some ''{}'' \<and>
   jsonMatch ''Plan: {} and {}'' = Some ''{} and {}''"
  by code_simp

section \<open>The cache in the analysis step\<close>

lemma requests_get [simp]: "requests (snd (get env t imageUrl prompt w)) = requests w"
  by (simp add: get_def Let_def set_cache_map_def split: sum.splits option.splits)

lemma callGeminiVision_written:
  assumes "callGeminiVision env uploaded imageBase64 prompt w = (Inr r, w')"
  shows "\<exists>h e. generateImageHash env uploaded = Inr h \<and>
           map_of (cache (cacheManager w')) (cacheKey h prompt) = Some e \<and> data e = r"
proof -
  let ?Q = "\<lambda>r w. \<exists>h e. generateImageHash env uploaded = Inr h \<and>
           map_of (cache (cacheManager w)) (cacheKey h prompt) = Some e \<and> data e = r"
  have l: "\<And>w0 r ss w2. retryWithBackoff env (analysisOperation env uploaded imageBase64 prompt)
              RETRY_CONFIG w0 = (Inr r, ss, w2) \<Longrightarrow> ?Q r w2"
    unfolding retryWithBackoff_def
    by (erule retry_loop_returns[where Q="?Q", rotated 2])
       (auto dest: analysisOperation_returns)
  obtain x w1 where g: "get env (now env (tick w)) uploaded prompt (tick w) = (x, w1)"
    by (cases "get env (now env (tick w)) uploaded prompt (tick w)")
  show ?thesis
  proof (cases x)
    case (Inl e)
    then show ?thesis using assms g by (simp add: callGeminiVision_def split: if_splits)
  next
    case (Inr c)
    show ?thesis
    proof (cases "truthy c")
      case False
      then show ?thesis using assms g Inr
        by (cases c) (auto simp: callGeminiVision_def split: if_splits prod.splits dest: l)
    next
      case True
      then obtain d where c: "c = Some d" "d \<noteq> []" by (cases c) auto
      then have rd: "r = d" and w': "w' = set_ui (\<lambda>u. u\<lparr>cacheStatus := Some ''Using cached result''\<rparr>) w1"
        using assms g Inr by (auto simp: callGeminiVision_def split: if_splits)
      from g Inr c obtain h entry where
        "generateImageHash env uploaded = Inr h"
        "map_of (cache (cacheManager (tick w))) (cacheKey h prompt) = Some entry"
        "data entry = d" "w1 = tick w"
        by (auto simp: get_def Let_def split: sum.splits option.splits if_splits)
      then show ?thesis using rd w' by simp
    qed
  qed
qed

text \<open>
  C5, as the code has it. With the key configured and the image hashed: when the cache holds
  an entry for the key that is younger than \<^const>\<open>maxAge\<close> and whose value is not empty,
  \<^const>\<open>callGeminiVision\<close> returns that value and sends no request. When the cache holds no
  entry for the key, or one that has expired, the result is that of \<^const>\<open>retryWithBackoff\<close>
  on the analysis operation. Whenever \<^const>\<open>callGeminiVision\<close> returns a text, the cache holds
  that text under the key when it returns.
\<close>

theorem callGeminiVision_cache:
  assumes key: "truthy (apiKey env)" and h: "generateImageHash env uploaded = Inr h"
  shows "(map_of (cache (cacheManager w)) (cacheKey h prompt) = Some entry \<and>
          now env (tick w) - timestamp entry < maxAge \<and> data entry \<noteq> [] \<longrightarrow>
            fst (callGeminiVision env uploaded imageBase64 prompt w) = Inr (data entry) \<and>
            requests (snd (callGeminiVision env uploaded imageBase64 prompt w)) = requests w) \<and>
         ((case map_of (cache (cacheManager w)) (cacheKey h prompt) of
             None \<Rightarrow> True
           | Some e \<Rightarrow> maxAge \<le> now env (tick w) - timestamp e) \<longrightarrow>
            callGeminiVision env uploaded imageBase64 prompt w =
              (case retryWithBackoff env (analysisOperation env uploaded imageBase64 prompt)
                      RETRY_CONFIG
                      (set_ui (\<lambda>u. u\<lparr>cacheStatus := Some ''Cache miss - calling API''\<rparr>)
                         (snd (get env (now env (tick w)) uploaded prompt (tick w)))) of
                 (r, ss, w2) \<Rightarrow> (r, w2))) \<and>
         (\<forall>r w'. callGeminiVision env uploaded imageBase64 prompt w = (Inr r, w') \<longrightarrow>
            (\<exists>e. map_of (cache (cacheManager w')) (cacheKey h prompt) = Some e \<and> data e = r))"
proof (intro conjI impI allI)
  assume a: "map_of (cache (cacheManager w)) (cacheKey h prompt) = Some entry \<and>
          now env (tick w) - timestamp entry < maxAge \<and> data entry \<noteq> []"
  then have g: "get env (now env (tick w)) uploaded prompt (tick w)
                  = (Inr (Some (data entry)), tick w)"
    using get_fresh[OF h, of "tick w" prompt entry "now env (tick w)"] by simp
  show "fst (callGeminiVision env uploaded imageBase64 prompt w) = Inr (data entry)"
    using key a g by (simp add: callGeminiVision_def)
  show "requests (snd (callGeminiVision env uploaded imageBase64 prompt w)) = requests w"
    using key a g by (simp add: callGeminiVision_def)
next
  assume m: "case map_of (cache (cacheManager w)) (cacheKey h prompt) of
             None \<Rightarrow> True
           | Some e \<Rightarrow> maxAge \<le> now env (tick w) - timestamp e"
  have "fst (get env (now env (tick w)) uploaded prompt (tick w)) = Inr None"
    using m h by (auto simp: get_def Let_def split: option.splits)
  then show "callGeminiVision env uploaded imageBase64 prompt w =
              (case retryWithBackoff env (analysisOperation env uploaded imageBase64 prompt)
                      RETRY_CONFIG
                      (set_ui (\<lambda>u. u\<lparr>cacheStatus := Some ''Cache miss - calling API''\<rparr>)
                         (snd (get env (now env (tick w)) uploaded prompt (tick w)))) of
                 (r, ss, w2) \<Rightarrow> (r, w2))"
    using key
    by (cases "get env (now env (tick w)) uploaded prompt (tick w)")
       (simp add: callGeminiVision_def)
next
  fix r w'
  assume "callGeminiVision env uploaded imageBase64 prompt w = (Inr r, w')"
  from callGeminiVision_written[OF this] h
  show "\<exists>e. map_of (cache (cacheManager w')) (cacheKey h prompt) = Some e \<and> data e = r"
    by auto
qed

theorem callGeminiVision_cache_witness:
  "fst (callGeminiVision analysis_succeeds ''data:image/png;base64,iVBORw0KGgo='' ''/9j/4AAQ''
          (fullPrompt ''crack in beam'') (page_load (cached 0 ''The beam shows a crack.'')))
     = Inr ''The beam shows a crack.'' \<and>
   requests (snd (callGeminiVision analysis_succeeds ''data:image/png;base64,iVBORw0KGgo=''
          ''/9j/4AAQ'' (fullPrompt ''crack in beam'')
          (page_load (cached 0 ''The beam shows a crack.''))))
     = requests (page_load (cached 0 ''The beam shows a crack.'')) \<and>
   callGeminiVision analysis_succeeds ''data:image/png;base64,iVBORw0KGgo='' ''/9j/4AAQ''
       (fullPrompt ''crack in beam'') (page_load Absent)
     = (case retryWithBackoff analysis_succeeds
              (analysisOperation analysis_succeeds ''data:image/png;base64,iVBORw0KGgo=''
                 ''/9j/4AAQ'' (fullPrompt ''crack in beam''))
              RETRY_CONFIG
              (set_ui (\<lambda>u. u\<lparr>cacheStatus := Some ''Cache miss - calling API''\<rparr>)
                 (snd (get analysis_succeeds (now analysis_succeeds (tick (page_load Absent)))
                         ''data:image/png;base64,iVBORw0KGgo='' (fullPrompt ''crack in beam'')
                         (tick (page_load Absent))))) of
         (r, ss, w2) \<Rightarrow> (r, w2)) \<and>
   (\<exists>e. map_of (cache (cacheManager (snd (callGeminiVision analysis_succeeds
              ''data:image/png;base64,iVBORw0KGgo='' ''/9j/4AAQ'' (fullPrompt ''crack in beam'')
              (page_load Absent)))))
           (cacheKey ''a3f1'' (fullPrompt ''crack in beam'')) = Some e \<and>
        data e = ''The beam shows a crack.'')"
proof -
  let ?U = "''data:image/png;base64,iVBORw0KGgo=''"
  let ?P = "fullPrompt ''crack in beam''"
  let ?hit = "page_load (cached 0 ''The beam shows a crack.'')"
  let ?entry = "\<lparr>data = ''The beam shows a crack.'', timestamp = 0, imageHash = ''a3f1''\<rparr>"
  let ?c = "callGeminiVision analysis_succeeds ?U ''/9j/4AAQ'' ?P (page_load Absent)"
  have key: "truthy (apiKey analysis_succeeds)"
    by (simp add: analysis_succeeds_def scenario_def)
  have h: "generateImageHash analysis_succeeds ?U = Inr ''a3f1''"
    by (simp add: analysis_succeeds_def scenario_def)
  have fresh: "map_of (cache (cacheManager ?hit)) (cacheKey ''a3f1'' ?P) = Some ?entry \<and>
               now analysis_succeeds (tick ?hit) - timestamp ?entry < maxAge \<and> data ?entry \<noteq> []"
    by (simp add: page_load_def cached_def new_CacheManager_def loadFromLocalStorage_def
        now_def tick_def analysis_succeeds_def scenario_def maxAge_def)
  have absent: "case map_of (cache (cacheManager (page_load Absent))) (cacheKey ''a3f1'' ?P) of
                  None \<Rightarrow> True
                | Some e \<Rightarrow> maxAge \<le> now analysis_succeeds (tick (page_load Absent)) - timestamp e"
    by (simp add: page_load_def new_CacheManager_def loadFromLocalStorage_def)
  have "fst ?c = Inr ''The beam shows a crack.''"
    by code_simp
  then have ret: "?c = (Inr ''The beam shows a crack.'', snd ?c)"
    by (simp add: prod_eq_iff)
  note hit = callGeminiVision_cache [OF key h, of ?hit ?P ?entry "''/9j/4AAQ''"]
  note miss = callGeminiVision_cache [OF key h, of "page_load Absent" ?P ?entry "''/9j/4AAQ''"]
  from hit fresh
  have a: "fst (callGeminiVision analysis_succeeds ?U ''/9j/4AAQ'' ?P ?hit) = Inr (data ?entry) \<and>
           requests (snd (callGeminiVision analysis_succeeds ?U ''/9j/4AAQ'' ?P ?hit))
             = requests ?hit"
    by blast
  from miss absent
  have b: "?c = (case retryWithBackoff analysis_succeeds
                        (analysisOperation analysis_succeeds ?U ''/9j/4AAQ'' ?P) RETRY_CONFIG
                        (set_ui (\<lambda>u. u\<lparr>cacheStatus := Some ''Cache miss - calling API''\<rparr>)
                           (snd (get analysis_succeeds
                                   (now analysis_succeeds (tick (page_load Absent))) ?U ?P
                                   (tick (page_load Absent))))) of
                   (r, ss, w2) \<Rightarrow> (r, w2))"
    by blast
  from miss ret
  have c: "\<exists>e. map_of (cache (cacheManager (snd ?c))) (cacheKey ''a3f1'' ?P) = Some e \<and>
               data e = ''The beam shows a crack.''"
    by blast
  show ?thesis
    using a b c by simp
qed

text \<open>
  As C5 is worded it fails. With no key configured the analysis step throws before the cache
  is read, whatever the cache holds. And an entry whose value is the empty text is not taken:
  a request is sent.
\<close>

theorem callGeminiVision_cache_counterexample:
  "fst (callGeminiVision (analysis_succeeds\<lparr>apiKey := None\<rparr>) ''data:image/png;base64,iVBORw0KGgo=''
         ''/9j/4AAQ'' (fullPrompt ''crack in beam'') (page_load (cached 0 ''The beam shows a crack.'')))
     = Inl (Err apiKeyMissing) \<and>
   requests (snd (callGeminiVision analysis_succeeds ''data:image/png;base64,iVBORw0KGgo=''
         ''/9j/4AAQ'' (fullPrompt ''crack in beam'') (page_load (cached 0 ''''))))
     = 1"
  by code_simp

section \<open>The report\<close>

lemma handleGenerateReport_valid:
  assumes "uploadedImage r = Some uploaded" "uploaded \<noteq> []" "trim (userDescription r) \<noteq> []"
  shows "handleGenerateReport env r w =
    (let w1 = (case generateReport_try env uploaded (userDescription r) (begin_run w) of
                 (Inr u, w') \<Rightarrow> w'
               | (Inl err, w') \<Rightarrow> generateReport_catch (retryCount r) err w')
     in if maxRetries RETRY_CONFIG \<le> retryCount r
        then set_ui (\<lambda>u. u\<lparr>isLoading := False\<rparr>) w1
        else w1)"
  using assms by (simp add: handleGenerateReport_def)

text \<open>The state when the visualization starts, after an analysis that returned.\<close>

lemma analysis_returned:
  assumes ana: "callGeminiVision env uploaded imageBase64 prompt
                  (set_ui (\<lambda>u. u\<lparr>processingStep := ''Analyzing infrastructure with Gemini AI...''\<rparr>)
                     (tick (begin_run w))) = (Inr a, w1)"
  shows "truthy (apiKey env) \<and> error (ui w1) = None \<and> reportData (ui w1) = reportData (ui w)"
proof -
  let ?w0 = "set_ui (\<lambda>u. u\<lparr>processingStep := ''Analyzing infrastructure with Gemini AI...''\<rparr>)
               (tick (begin_run w))"
  have "core (ui w1) = core (ui ?w0)"
    using callGeminiVision_core[of env uploaded imageBase64 prompt ?w0] ana by simp
  then show ?thesis
    using callGeminiVision_returns[OF ana] by (simp add: core_def begin_run_def)
qed

text \<open>
  C4, as the code has it. The handler runs the visualization step before it parses the
  analysis text, and nothing catches what that step throws. Let the handler pass its two
  checks, the image be transcoded, the analysis step return the text \<open>a\<close> and the
  visualization step return an image. If \<open>a\<close> holds no text to parse, or \<^verbatim>\<open>JSON.parse\<close>
  rejects the text matched, the run ends with no error shown, the progress text cleared, and
  the report set to the fallback: its description is the serialised object whose
  \<^verbatim>\<open>current_state\<close> is \<open>a\<close> itself, and its cost estimation and timeline are the fixed
  values.
\<close>

theorem fallback_report:
  assumes valid: "uploadedImage r = Some uploaded \<and> uploaded \<noteq> [] \<and> trim (userDescription r) \<noteq> []"
    and conv: "convertImageToBase64 env uploaded = Inr imageBase64"
    and ana: "callGeminiVision env uploaded imageBase64 (fullPrompt (userDescription r))
                (set_ui (\<lambda>u. u\<lparr>processingStep := ''Analyzing infrastructure with Gemini AI...''\<rparr>)
                   (tick (begin_run w))) = (Inr a, w1)"
    and vis: "generateRepairedImageWithGemini env a
                (set_ui (\<lambda>u. u\<lparr>processingStep :=
                   ''Generating completed infrastructure visualization...''\<rparr>) w1) = (Inr url, w2)"
    and unparsed: "case jsonMatch a of None \<Rightarrow> True | Some m \<Rightarrow> JSON_parse env m = None"
  shows "error (ui (handleGenerateReport env r w)) = None \<and>
         processingStep (ui (handleGenerateReport env r w)) = '''' \<and>
         reportData (ui (handleGenerateReport env r w)) =
           Some \<lparr>repaired_image_url = url,
                 repair_description = JSON_stringify env (Some (JObj
                   [(''current_state'', JStr a),
                    (''completion_requirements'', JStr ''See detailed analysis above''),
                    (''safety_measures'', JStr ''Standard safety protocols apply''),
                    (''recommendations'', JStr ''Follow standard construction guidelines'')])),
                 cost_estimation = Some (JObj
                   [(''total'', JStr (rupee @ ''3,00,000 INR'')),
                    (''breakdown'', JObj
                       [(''materials'', JStr (rupee @ ''1,00,000 INR'')),
                        (''labor'', JStr (rupee @ ''1,50,000 INR'')),
                        (''permits'', JStr (rupee @ ''25,000 INR'')),
                        (''safety_equipment'', JStr (rupee @ ''25,000 INR''))])]),
                 timeline = Some (JObj
                   [(''estimated_duration'', JStr ''3 months''),
                    (''phases'', JArr [JStr ''Phase 1: Initial assessment and planning'',
                                      JStr ''Phase 2: Construction and completion''])])\<rparr>"
proof -
  have p: "parseAnalysis env a = fallbackResponse a"
    using unparsed by (simp add: parseAnalysis_def split: option.splits)
  have e1: "error (ui w1) = None" using analysis_returned[OF ana] by simp
  have u2: "ui w2 = ui (set_ui (\<lambda>u. u\<lparr>processingStep :=
                   ''Generating completed infrastructure visualization...''\<rparr>) w1)"
    using generateRepairedImageWithGemini_ui[of env a "set_ui (\<lambda>u. u\<lparr>processingStep :=
                   ''Generating completed infrastructure visualization...''\<rparr>) w1"] vis by simp
  have t: "generateReport_try env uploaded (userDescription r) (begin_run w) =
      (Inr (), set_ui (\<lambda>u. u\<lparr>reportData := Some (finalReportData env url (fallbackResponse a)),
                                processingStep := ''''\<rparr>) w2)"
    using conv ana vis p by (simp add: generateReport_try_def)
  show ?thesis
    using valid t e1 u2
    by (simp add: handleGenerateReport_valid[of r uploaded] Let_def finalReportData_def
        fallbackResponse_def)
qed

theorem fallback_report_witness:
  "error (ui (handleGenerateReport analysis_succeeds (ui (prepared Absent)) (prepared Absent))) = None \<and>
   processingStep (ui (handleGenerateReport analysis_succeeds (ui (prepared Absent)) (prepared Absent))) = '''' \<and>
   reportData (ui (handleGenerateReport analysis_succeeds (ui (prepared Absent)) (prepared Absent))) =
     Some \<lparr>repaired_image_url = placeholderImage,
           repair_description = JSON_stringify analysis_succeeds (Some (JObj
             [(''current_state'', JStr ''The beam shows a crack.''),
              (''completion_requirements'', JStr ''See detailed analysis above''),
              (''safety_measures'', JStr ''Standard safety protocols apply''),
              (''recommendations'', JStr ''Follow standard construction guidelines'')])),
           cost_estimation = Some (JObj
             [(''total'', JStr (rupee @ ''3,00,000 INR'')),
              (''breakdown'', JObj
                 [(''materials'', JStr (rupee @ ''1,00,000 INR'')),
                  (''labor'', JStr (rupee @ ''1,50,000 INR'')),
                  (''permits'', JStr (rupee @ ''25,000 INR'')),
                  (''safety_equipment'', JStr (rupee @ ''25,000 INR''))])]),
           timeline = Some (JObj
             [(''estimated_duration'', JStr ''3 months''),
              (''phases'', JArr [JStr ''Phase 1: Initial assessment and planning'',
                                JStr ''Phase 2: Construction and completion''])])\<rparr>"
proof -
  let ?r = "ui (prepared Absent)"
  let ?U = "''data:image/png;base64,iVBORw0KGgo=''"
  let ?w0 = "set_ui (\<lambda>u. u\<lparr>processingStep := ''Analyzing infrastructure with Gemini AI...''\<rparr>)
               (tick (begin_run (prepared Absent)))"
  let ?c = "callGeminiVision analysis_succeeds ?U ''/9j/4AAQ'' (fullPrompt (userDescription ?r)) ?w0"
  let ?w1 = "set_ui (\<lambda>u. u\<lparr>processingStep :=
               ''Generating completed infrastructure visualization...''\<rparr>) (snd ?c)"
  let ?g = "generateRepairedImageWithGemini analysis_succeeds ''The beam shows a crack.'' ?w1"
  have valid: "uploadedImage ?r = Some ?U \<and> ?U \<noteq> [] \<and> trim (userDescription ?r) \<noteq> []"
    by code_simp
  have conv: "convertImageToBase64 analysis_succeeds ?U = Inr ''/9j/4AAQ''"
    by (simp add: analysis_succeeds_def scenario_def)
  have "fst ?c = Inr ''The beam shows a crack.''"
    by code_simp
  then have ana: "?c = (Inr ''The beam shows a crack.'', snd ?c)"
    by (simp add: prod_eq_iff)
  have "fst ?g = Inr placeholderImage"
    by code_simp
  then have vis: "?g = (Inr placeholderImage, snd ?g)"
    by (simp add: prod_eq_iff)
  have unparsed: "case jsonMatch ''The beam shows a crack.'' of None \<Rightarrow> True
                  | Some m \<Rightarrow> JSON_parse analysis_succeeds m = None"
    by code_simp
  show ?thesis
    using fallback_report [OF valid conv ana vis unparsed] .
qed

text \<open>
  As C4 is worded it fails: the analysis answers with a text that holds no brace, so there
  is nothing to parse; the description request of the visualization step is rejected by
  the network; the run ends with the error shown and no report, the analysis text cached.
\<close>

theorem unparsed_analysis_without_report_counterexample:
  "jsonMatch ''The beam shows a crack.'' = None \<and>
   error (ui (handle (GenerateClick description_rejected) (prepared Absent)))
     = Some ''Failed to generate report. Failed to fetch'' \<and>
   reportData (ui (handle (GenerateClick description_rejected) (prepared Absent))) = None \<and>
   map (\<lambda>p. data (snd p))
     (cache (cacheManager (handle (GenerateClick description_rejected) (prepared Absent))))
     = [''The beam shows a crack.'']"
  by code_simp

section \<open>The visualization step\<close>




end
